theory Spec2Isabelle
  imports Main "HOL-Library.AList"
begin

section \<open>Host values, errors, tokens and trees\<close>

text \<open>
  Strings are lists of characters; the column arithmetic of the source
  (\<^verbatim>\<open>index\<close>, \<^verbatim>\<open>match[0].length\<close>) counts list positions.
  A JavaScript object used as a dictionary is a list of its own properties; a read
  \<^verbatim>\<open>obj[name]\<close> of a name the object does not own finds the members every object
  inherits from \<^verbatim>\<open>Object.prototype\<close>, listed in \<open>protoNames\<close> below. An
  assignment to the name \<^verbatim>\<open>__proto__\<close> replaces the prototype of the object and
  creates no property: names that are assigned (the keys and the elements of a rule
  set) are taken to be other than \<^verbatim>\<open>__proto__\<close>.

  A sticky regular expression is taken as a parameter: the function that, given the
  subject string and \<^verbatim>\<open>lastIndex\<close>, returns the match array
  (\<^verbatim>\<open>match[0]\<close> followed by the capture groups) or nothing.
\<close>

type_synonym RegExp = "string \<Rightarrow> nat \<Rightarrow> string list option"

text \<open>The values a \<^verbatim>\<open>Record<string, any>\<close> can hold, as far as truthiness goes.\<close>

datatype jsany = JUndefined | JNull | JBool bool | JNumber int | JString string | JObject

fun truthy :: "jsany \<Rightarrow> bool" where
  "truthy JUndefined = False"
| "truthy JNull = False"
| "truthy (JBool b) = b"
| "truthy (JNumber n) = (n \<noteq> 0)"
| "truthy (JString s) = (s \<noteq> [])"
| "truthy JObject = True"

text \<open>
  \<^verbatim>\<open>ParseError(message, line, index)\<close>, a plain \<^verbatim>\<open>Error(message)\<close>,
  a failed \<^verbatim>\<open>assert\<close>, and the host's \<^verbatim>\<open>TypeError\<close> raised when a
  property of \<^verbatim>\<open>undefined\<close> is read.
\<close>

datatype error =
    ParseError string nat nat
  | Error string
  | AssertionError string
  | TypeError

text \<open>
  The names of the members of \<^verbatim>\<open>Object.prototype\<close>: functions, and the accessor
  \<^verbatim>\<open>__proto__\<close> that reads as the prototype itself. Each reads as a truthy value
  that is no set, no array and no action.
\<close>

definition protoNames :: "string list" where
  "protoNames =
     [''constructor'', ''__defineGetter__'', ''__defineSetter__'', ''hasOwnProperty'',
      ''__lookupGetter__'', ''__lookupSetter__'', ''isPrototypeOf'', ''propertyIsEnumerable'',
      ''toString'', ''valueOf'', ''__proto__'', ''toLocaleString'']"

record Terminal =
  t_type :: string
  t_pattern :: RegExp

record LexTree =
  l_type :: string
  l_match :: "string list"
  l_index :: nat
  l_line :: nat

text \<open>\<^verbatim>\<open>ParseTree | LexTree\<close>: a node either has children or is a token.\<close>

datatype tree = Leaf LexTree | Node string "tree list"

fun tree_type :: "tree \<Rightarrow> string" where
  "tree_type (Leaf l) = l_type l"
| "tree_type (Node ty cs) = ty"

text \<open>Array read \<^verbatim>\<open>xs[i]\<close>: \<^verbatim>\<open>undefined\<close> out of range.\<close>

definition at :: "'a list \<Rightarrow> nat \<Rightarrow> 'a option" where
  "at xs n = (if n < length xs then Some (xs ! n) else None)"

text \<open>\<^verbatim>\<open>xs[xs.length - 1]\<close>: \<^verbatim>\<open>undefined\<close> on the empty array.\<close>

definition top :: "'a list \<Rightarrow> 'a option" where
  "top xs = (if xs = [] then None else Some (last xs))"

section \<open>Lexer\<close>

text \<open>The constructor refuses a terminal of the reserved type \<^verbatim>\<open>$\<close>.\<close>

definition Lexer_new :: "Terminal list \<Rightarrow> error + Terminal list" where
  "Lexer_new terminals =
     (if \<exists>t \<in> set terminals. t_type t = ''$''
      then Inl (AssertionError ''The terminal type '$' is a reserved keyword'')
      else Inr terminals)"

text \<open>
  \<^verbatim>\<open>!activeTerminals || activeTerminals[terminal.type] || terminal.type === "whitespace"\<close>
\<close>

definition eligible :: "(string \<rightharpoonup> jsany) option \<Rightarrow> Terminal \<Rightarrow> bool" where
  "eligible activeTerminals terminal =
     (case activeTerminals of
        None \<Rightarrow> True
      | Some active \<Rightarrow>
          (case active (t_type terminal) of
             Some v \<Rightarrow> truthy v \<or> t_type terminal = ''whitespace''
           | None \<Rightarrow> t_type terminal = ''whitespace''))"

text \<open>The \<^verbatim>\<open>for (const terminal of this.terminals)\<close> loop of \<^verbatim>\<open>next\<close>.\<close>

fun nextLoop :: "Terminal list \<Rightarrow> LexTree \<Rightarrow> string \<Rightarrow> nat \<Rightarrow> (string \<rightharpoonup> jsany) option
                   \<Rightarrow> error + LexTree" where
  "nextLoop [] token str index activeTerminals =
     Inl (ParseError ''Lexer failed to recognize symbol'' (l_line token) (l_index token + index))"
| "nextLoop (terminal # rest) token str index activeTerminals =
     (if eligible activeTerminals terminal then
        (case t_pattern terminal str index of
           Some m \<Rightarrow> Inr \<lparr>l_type = t_type terminal, l_match = m,
                          l_index = l_index token + index, l_line = l_line token\<rparr>
         | None \<Rightarrow> nextLoop rest token str index activeTerminals)
      else nextLoop rest token str index activeTerminals)"

text \<open>\<^verbatim>\<open>Lexer.next(token, index, activeTerminals)\<close>.\<close>

definition Lexer_next :: "Terminal list \<Rightarrow> LexTree \<Rightarrow> nat \<Rightarrow> (string \<rightharpoonup> jsany) option
                   \<Rightarrow> error + LexTree" where
  "Lexer_next terminals token index activeTerminals =
     (case l_match token of
        [] \<Rightarrow> Inl TypeError
      | str # groups \<Rightarrow>
          if index \<ge> length str
          then Inr \<lparr>l_type = ''$'', l_match = [''''],
                    l_index = l_index token + index, l_line = l_line token\<rparr>
          else nextLoop terminals token str index activeTerminals)"

text \<open>
  The inner loop of \<^verbatim>\<open>Lexer.lex\<close> on one \<^verbatim>\<open>unknown\<close> token: it has no bound,
  so a run that never leaves it is the value \<open>None\<close>.
\<close>

partial_function (option) lexLine ::
  "Terminal list \<Rightarrow> LexTree \<Rightarrow> nat \<Rightarrow> LexTree list \<Rightarrow> (error + LexTree list) option" where
  "lexLine terminals token index output =
     (case Lexer_next terminals token index None of
        Inl e \<Rightarrow> Some (Inl e)
      | Inr lexToken \<Rightarrow>
          if l_type lexToken = ''$'' then Some (Inr output)
          else (case l_match lexToken of
                  [] \<Rightarrow> Some (Inl TypeError)
                | m0 # groups \<Rightarrow>
                    lexLine terminals token (index + length m0) (output @ [lexToken])))"

declare lexLine.simps [code]

text \<open>The outer loop of \<^verbatim>\<open>Lexer.lex\<close> over the tokens.\<close>

fun lexTokens :: "Terminal list \<Rightarrow> LexTree list \<Rightarrow> LexTree list \<Rightarrow> (error + LexTree list) option" where
  "lexTokens terminals [] output = Some (Inr output)"
| "lexTokens terminals (token # rest) output =
     (if l_type token = ''unknown'' then
        (case lexLine terminals token 0 output of
           None \<Rightarrow> None
         | Some (Inl e) \<Rightarrow> Some (Inl e)
         | Some (Inr output') \<Rightarrow> lexTokens terminals rest output')
      else lexTokens terminals rest (output @ [token]))"

definition Lexer_lex :: "Terminal list \<Rightarrow> LexTree list \<Rightarrow> (error + LexTree list) option" where
  "Lexer_lex terminals tokens = lexTokens terminals tokens []"

text \<open>
  White space as \<^verbatim>\<open>\s\<close> sees it among the code units below 256:
  tab, line feed, vertical tab, form feed, carriage return, space, no-break space.
\<close>

definition isSpace :: "char \<Rightarrow> bool" where
  "isSpace c = (c \<in> {CHR 0x09, CHR 0x0A, CHR 0x0B, CHR 0x0C, CHR 0x0D, CHR 0x20, CHR 0xA0})"

text \<open>\<^verbatim>\<open>line.match(/\S/)\<close>: the index of the first character that is not white space.\<close>

fun firstNonSpaceFrom :: "nat \<Rightarrow> string \<Rightarrow> nat option" where
  "firstNonSpaceFrom n [] = None"
| "firstNonSpaceFrom n (c # cs) = (if isSpace c then firstNonSpaceFrom (Suc n) cs else Some n)"

definition firstNonSpace :: "string \<Rightarrow> nat option" where
  "firstNonSpace line = firstNonSpaceFrom 0 line"

text \<open>
  \<^verbatim>\<open>input.split(/\r?\n/)\<close>: a line ends at each line feed, and a carriage return
  right before it belongs to the separator.
\<close>

fun splitLines :: "string \<Rightarrow> string \<Rightarrow> string list" where
  "splitLines [] cur = [cur]"
| "splitLines (c # cs) cur =
     (if c = CHR 0x0A
      then (if cur \<noteq> [] \<and> last cur = CHR 0x0D then butlast cur else cur) # splitLines cs []
      else splitLines cs (cur @ [c]))"

text \<open>\<^verbatim>\<open>.filter(line => !comment || !comment.test(line))\<close>\<close>

definition keepLines :: "(string \<Rightarrow> bool) option \<Rightarrow> string list \<Rightarrow> string list" where
  "keepLines comment lines =
     filter (\<lambda>line. case comment of None \<Rightarrow> True | Some test \<Rightarrow> \<not> test line) lines"

definition unknownToken :: "string \<Rightarrow> nat \<Rightarrow> LexTree" where
  "unknownToken str line = \<lparr>l_type = ''unknown'', l_match = [str], l_index = 0, l_line = line\<rparr>"

definition markToken :: "string \<Rightarrow> nat \<Rightarrow> nat \<Rightarrow> LexTree" where
  "markToken ty index line = \<lparr>l_type = ty, l_match = [''''], l_index = index, l_line = line\<rparr>"

fun unknownTokens :: "string list \<Rightarrow> nat \<Rightarrow> LexTree list" where
  "unknownTokens [] line = []"
| "unknownTokens (str # rest) line = unknownToken str line # unknownTokens rest (Suc line)"

text \<open>\<^verbatim>\<open>Lexer.split(input, comment)\<close>\<close>

definition Lexer_split :: "string \<Rightarrow> (string \<Rightarrow> bool) option \<Rightarrow> error + LexTree list" where
  "Lexer_split input comment =
     (let lines = keepLines comment (splitLines input [])
      in case top lines of
           None \<Rightarrow> Inl TypeError
         | Some lastLine \<Rightarrow>
             Inr (unknownTokens lines 0 @ [markToken ''$'' (length lastLine) (length lines - 1)]))"

text \<open>
  The \<^verbatim>\<open>while (match.index < level[level.length - 1])\<close> loop of
  \<^verbatim>\<open>splitOffside\<close>; a comparison with \<^verbatim>\<open>undefined\<close> is false.
\<close>

function dedentLoop :: "nat \<Rightarrow> nat \<Rightarrow> nat list \<Rightarrow> LexTree list \<Rightarrow> nat list \<times> LexTree list" where
  "dedentLoop c i level output =
     (case top level of
        None \<Rightarrow> (level, output)
      | Some t \<Rightarrow>
          if c < t then dedentLoop c i (butlast level) (output @ [markToken ''dedent'' c i])
          else (level, output))"
  by pat_completeness auto
termination
  by (relation "measure (\<lambda>(c, i, level, output). length level)") (auto simp: top_def split: if_splits)

declare dedentLoop.simps [simp del]

text \<open>The \<^verbatim>\<open>for\<close> loop of \<^verbatim>\<open>splitOffside\<close> over the lines, \<open>i\<close> the line number.\<close>

fun offsideLoop :: "string list \<Rightarrow> nat \<Rightarrow> nat list \<Rightarrow> LexTree list
                      \<Rightarrow> error + (nat list \<times> LexTree list)" where
  "offsideLoop [] i level output = Inr (level, output)"
| "offsideLoop (str # rest) i level output =
     (case firstNonSpace str of
        None \<Rightarrow> offsideLoop rest (Suc i) level (output @ [unknownToken str i])
      | Some c \<Rightarrow>
          if (case top level of None \<Rightarrow> False | Some t \<Rightarrow> c > t)
          then offsideLoop rest (Suc i) (level @ [c])
                 (output @ [markToken ''indent'' c i] @ [unknownToken str i])
          else (case dedentLoop c i level output of
                  (level', output') \<Rightarrow>
                    if top level' \<noteq> Some c
                    then Inl (ParseError ''Invalid indentation detected'' i c)
                    else offsideLoop rest (Suc i) level' (output' @ [unknownToken str i])))"

text \<open>The closing \<^verbatim>\<open>while (0 < level[level.length - 1])\<close> loop.\<close>

function closeLevels :: "nat \<Rightarrow> nat \<Rightarrow> nat list \<Rightarrow> LexTree list \<Rightarrow> LexTree list" where
  "closeLevels index line level output =
     (case top level of
        None \<Rightarrow> output
      | Some t \<Rightarrow>
          if 0 < t then closeLevels index line (butlast level) (output @ [markToken ''dedent'' index line])
          else output)"
  by pat_completeness auto
termination
  by (relation "measure (\<lambda>(index, line, level, output). length level)") (auto simp: top_def split: if_splits)

declare closeLevels.simps [simp del]

text \<open>\<^verbatim>\<open>Lexer.splitOffside(input, comment)\<close>\<close>

definition Lexer_splitOffside :: "string \<Rightarrow> (string \<Rightarrow> bool) option \<Rightarrow> error + LexTree list" where
  "Lexer_splitOffside input comment =
     (let lines = keepLines comment (splitLines input [])
      in case offsideLoop lines 0 [0] [] of
           Inl e \<Rightarrow> Inl e
         | Inr (level, output) \<Rightarrow>
             (case top lines of
                None \<Rightarrow> Inl TypeError
              | Some lastLine \<Rightarrow>
                  Inr (closeLevels (length lastLine) (length lines - 1) level output
                       @ [markToken ''$'' (length lastLine) (length lines - 1)])))"

text \<open>
  The pattern of an auto-promoted terminal, \<^verbatim>\<open>new RegExp(el.replace(..., "\\$&"))\<close>
  made sticky by the lexer: every special character is escaped, so it matches the text
  \<open>el\<close> itself at \<^verbatim>\<open>lastIndex\<close> and nothing else.
\<close>

definition literal :: "string \<Rightarrow> RegExp" where
  "literal el str index =
     (if index \<le> length str \<and> take (length el) (drop index str) = el then Some [el] else None)"

text \<open>The pattern \<^verbatim>\<open>/c*/\<close> for one character \<open>c\<close>: the longest run of \<open>c\<close>, possibly empty.\<close>

definition star :: "char \<Rightarrow> RegExp" where
  "star c str index =
     (if index \<le> length str then Some [takeWhile (\<lambda>x. x = c) (drop index str)] else None)"

text \<open>
  An \<^verbatim>\<open>unknown\<close> line token that starts at column \<open>index\<close> of its line
  (\<^verbatim>\<open>split\<close> and \<^verbatim>\<open>splitOffside\<close> produce them at column 0).
\<close>

definition lineToken :: "string \<Rightarrow> nat \<Rightarrow> nat \<Rightarrow> LexTree" where
  "lineToken str index line =
     \<lparr>l_type = ''unknown'', l_match = [str], l_index = index, l_line = line\<rparr>"

subsection \<open>The offside rule in the words of the specification\<close>

text \<open>
  The stack of indentation columns with its top first. A line whose first character that
  is not white space stands at column \<open>c\<close> emits \<^verbatim>\<open>indent\<close> and pushes \<open>c\<close> when
  \<open>c\<close> exceeds the top; otherwise it pops while \<open>c\<close> is below the top, one
  \<^verbatim>\<open>dedent\<close> per pop, and fails if \<open>c\<close> then differs from the top. The line's
  \<^verbatim>\<open>unknown\<close> token follows (a blank line emits only that token).
\<close>

definition emit :: "LexTree list \<Rightarrow> error + (LexTree list \<times> nat list)
                      \<Rightarrow> error + (LexTree list \<times> nat list)" where
  "emit tokens r =
     (case r of Inl e \<Rightarrow> Inl e | Inr (later, stack) \<Rightarrow> Inr (tokens @ later, stack))"

fun offsideSpec :: "nat list \<Rightarrow> nat \<Rightarrow> string list \<Rightarrow> error + (LexTree list \<times> nat list)" where
  "offsideSpec stack i [] = Inr ([], stack)"
| "offsideSpec stack i (str # rest) =
     (case firstNonSpace str of
        None \<Rightarrow> emit [unknownToken str i] (offsideSpec stack (Suc i) rest)
      | Some c \<Rightarrow>
          if stack \<noteq> [] \<and> c > hd stack
          then emit [markToken ''indent'' c i, unknownToken str i]
                 (offsideSpec (c # stack) (Suc i) rest)
          else (let popped = takeWhile (\<lambda>t. c < t) stack; stack' = dropWhile (\<lambda>t. c < t) stack
                in if stack' = [] \<or> hd stack' \<noteq> c
                   then Inl (ParseError ''Invalid indentation detected'' i c)
                   else emit (map (\<lambda>t. markToken ''dedent'' c i) popped @ [unknownToken str i])
                          (offsideSpec stack' (Suc i) rest)))"

text \<open>
  At the end of the input: one \<^verbatim>\<open>dedent\<close> per level left on the stack that is not
  zero, then \<^verbatim>\<open>$\<close>, both at the end of the last line.
\<close>

definition splitOffsideSpec :: "string list \<Rightarrow> error + LexTree list" where
  "splitOffsideSpec lines =
     (case offsideSpec [0] 0 lines of
        Inl e \<Rightarrow> Inl e
      | Inr (tokens, stack) \<Rightarrow>
          Inr (tokens
               @ map (\<lambda>t. markToken ''dedent'' (length (last lines)) (length lines - 1))
                     (filter (\<lambda>t. t \<noteq> 0) stack)
               @ [markToken ''$'' (length (last lines)) (length lines - 1)]))"

text \<open>The stack of columns, top first: strictly decreasing down to the column 0.\<close>

definition levels_ok :: "nat list \<Rightarrow> bool" where
  "levels_ok stack = (stack \<noteq> [] \<and> last stack = 0 \<and> sorted_wrt (>) stack)"

section \<open>Grammar, items and actions\<close>

text \<open>
  A \<^verbatim>\<open>RuleSet\<close> is an object from non-terminal names to lists of rules; it is the
  list of its entries in the order \<^verbatim>\<open>for (const key in rules)\<close> visits them, read
  with \<open>map_of\<close>.
\<close>

type_synonym Rule = "string list"
type_synonym RuleSet = "(string \<times> Rule list) list"

record DottedRule =
  d_key :: string
  d_children :: Rule
  d_dot :: nat

text \<open>
  An element of a \<^verbatim>\<open>cameFrom\<close> array: an index that was never assigned (a hole, read
  as \<^verbatim>\<open>undefined\<close>), the value \<^verbatim>\<open>null\<close> (what a hole becomes in a table read
  back from a file), or a number.
\<close>

datatype slot = Hole | Null | Index nat

datatype Action =
    Shift nat "slot list"
  | Reduce string nat
  | Accept string

text \<open>\<^verbatim>\<open>action.type\<close>\<close>

fun actionType :: "Action \<Rightarrow> string" where
  "actionType (Shift goto cameFrom) = ''shift''"
| "actionType (Reduce key rule) = ''reduce''"
| "actionType (Accept key) = ''accept''"

text \<open>
  A row of the action table, \<^verbatim>\<open>Record<string, Action>\<close>, is the list of the
  assignments \<^verbatim>\<open>row[el] = action\<close> made to it, oldest first; a read returns the
  latest assignment to the key. A row in which no key was assigned twice has distinct
  keys.
\<close>

type_synonym Row = "(string \<times> Action) list"

definition rowGet :: "Row \<Rightarrow> string \<Rightarrow> Action option" where
  "rowGet row el = map_of (rev row) el"

definition rowHas :: "Row \<Rightarrow> string \<Rightarrow> bool" where
  "rowHas row el = (rowGet row el \<noteq> None)"

text \<open>A property name computed from a value that may be \<^verbatim>\<open>undefined\<close>.\<close>

definition keyOf :: "string option \<Rightarrow> string" where
  "keyOf el = (case el of None \<Rightarrow> ''undefined'' | Some x \<Rightarrow> x)"

text \<open>
  \<^verbatim>\<open>new Set([...a, ...b])\<close>: a set keeps its elements in the order of their first
  insertion.
\<close>

definition setAdd :: "string list \<Rightarrow> string \<Rightarrow> string list" where
  "setAdd xs x = (if x \<in> set xs then xs else xs @ [x])"

definition setUnion :: "string list \<Rightarrow> string list \<Rightarrow> string list" where
  "setUnion a b = foldl setAdd [] (a @ b)"

text \<open>A loop body that may throw, folded over a list.\<close>

fun foldE :: "('s \<Rightarrow> 'a \<Rightarrow> error + 's) \<Rightarrow> 'a list \<Rightarrow> 's \<Rightarrow> error + 's" where
  "foldE f [] s = Inr s"
| "foldE f (x # xs) s = (case f s x of Inl e \<Rightarrow> Inl e | Inr s' \<Rightarrow> foldE f xs s')"

text \<open>\<^verbatim>\<open>xs.findIndex(p)\<close>, \<open>None\<close> for \<^verbatim>\<open>-1\<close>.\<close>

fun findIndexFrom :: "nat \<Rightarrow> ('a \<Rightarrow> bool) \<Rightarrow> 'a list \<Rightarrow> nat option" where
  "findIndexFrom n p [] = None"
| "findIndexFrom n p (x # xs) = (if p x then Some n else findIndexFrom (Suc n) p xs)"

definition findIndex :: "('a \<Rightarrow> bool) \<Rightarrow> 'a list \<Rightarrow> nat option" where
  "findIndex p xs = findIndexFrom 0 p xs"

section \<open>Parser: quantifiers, FIRST and FOLLOW\<close>

text \<open>
  \<^verbatim>\<open>switch (el && el[el.length - 1])\<close>: the empty string takes the default branch.
\<close>

definition Parser_base :: "string \<Rightarrow> string" where
  "Parser_base el =
     (if el \<noteq> [] \<and> (last el = CHR ''+'' \<or> last el = CHR ''*'' \<or> last el = CHR ''?'')
      then butlast el else el)"

definition Parser_canOmit :: "string \<Rightarrow> bool" where
  "Parser_canOmit el = (el \<noteq> [] \<and> (last el = CHR ''*'' \<or> last el = CHR ''?''))"

definition Parser_canRepeat :: "string \<Rightarrow> bool" where
  "Parser_canRepeat el = (el \<noteq> [] \<and> (last el = CHR ''+'' \<or> last el = CHR ''*''))"

text \<open>
  \<^verbatim>\<open>Parser.terminals(rules, terminals)\<close>: every element that is neither a
  non-terminal nor a declared terminal becomes a terminal matching its own text, in the
  order of first appearance, ahead of the declared terminals. The test
  \<^verbatim>\<open>rules.hasOwnProperty(el)\<close> is the inherited method: the rules are taken to have
  no key \<^verbatim>\<open>hasOwnProperty\<close> here (with one, the call throws).
\<close>

definition promote :: "RuleSet \<Rightarrow> string list \<times> Terminal list \<Rightarrow> string
                         \<Rightarrow> string list \<times> Terminal list" where
  "promote rules st el0 =
     (case st of (terminalSet, ruleTerminals) \<Rightarrow>
        let el = Parser_base el0
        in if map_of rules el = None \<and> el \<notin> set terminalSet
           then (terminalSet @ [el], ruleTerminals @ [\<lparr>t_type = el, t_pattern = literal el\<rparr>])
           else (terminalSet, ruleTerminals))"

definition Parser_terminals :: "RuleSet \<Rightarrow> Terminal list \<Rightarrow> Terminal list" where
  "Parser_terminals rules terminals =
     snd (foldl (promote rules) (map t_type terminals, []) (concat (concat (map snd rules))))
     @ terminals"




text \<open>
  The tables \<^verbatim>\<open>first\<close> and \<^verbatim>\<open>follow\<close>, \<^verbatim>\<open>Record<string, Set<string>>\<close>, as
  association lists; an assignment to a key replaces its entry or appends one.
\<close>

type_synonym SetTable = "(string \<times> string list) list"

text \<open>The initialisation loop of \<^verbatim>\<open>first\<close>.\<close>

text \<open>
  \<^verbatim>\<open>first[el] = first[el] || new Set([el])\<close>: a set the table holds is kept, and so
  is a member inherited from \<^verbatim>\<open>Object.prototype\<close>, which is truthy and no set. The
  table then has no entry for the name, and spreading \<^verbatim>\<open>first[el]\<close> throws as it
  does for \<^verbatim>\<open>undefined\<close>.
\<close>

definition firstInitEl :: "SetTable \<Rightarrow> string \<Rightarrow> SetTable" where
  "firstInitEl first el0 =
     (let el = Parser_base el0
      in case map_of first el of
           Some s \<Rightarrow> first
         | None \<Rightarrow> if el \<in> set protoNames then first else AList.update el [el] first)"

definition firstInitKey :: "SetTable \<Rightarrow> string \<times> Rule list \<Rightarrow> SetTable" where
  "firstInitKey first entry =
     (case entry of (key, prods) \<Rightarrow> foldl firstInitEl (AList.update key [] first) (concat prods))"

definition firstInit :: "RuleSet \<Rightarrow> SetTable" where
  "firstInit rules = foldl firstInitKey [] rules"

text \<open>
  One rule in the fixpoint loop of \<^verbatim>\<open>first\<close>: the \<^verbatim>\<open>for (const el of rule)\<close>
  loop with its \<^verbatim>\<open>break\<close>. Spreading \<^verbatim>\<open>undefined\<close> throws.
\<close>

fun firstRule :: "string \<Rightarrow> SetTable \<Rightarrow> Rule \<Rightarrow> error + SetTable" where
  "firstRule key first [] = Inr first"
| "firstRule key first (el # rest) =
     (case map_of first key of
        None \<Rightarrow> Inl TypeError
      | Some a \<Rightarrow>
          (case map_of first (Parser_base el) of
             None \<Rightarrow> Inl TypeError
           | Some b \<Rightarrow>
               let first' = AList.update key (setUnion a b) first
               in if Parser_canOmit el then firstRule key first' rest else Inr first'))"

text \<open>One key in the fixpoint loop: \<^verbatim>\<open>changed = changed || first[key].size > prevSize\<close>.\<close>

definition firstKey :: "SetTable \<times> bool \<Rightarrow> string \<times> Rule list \<Rightarrow> error + (SetTable \<times> bool)" where
  "firstKey st entry =
     (case st of (first, changed) \<Rightarrow>
      case entry of (key, prods) \<Rightarrow>
        (case map_of first key of
           None \<Rightarrow> Inl TypeError
         | Some prev \<Rightarrow>
             (case foldE (firstRule key) prods first of
                Inl e \<Rightarrow> Inl e
              | Inr first' \<Rightarrow>
                  (case map_of first' key of
                     None \<Rightarrow> Inl TypeError
                   | Some now \<Rightarrow> Inr (first', changed \<or> length now > length prev)))))"

text \<open>The \<^verbatim>\<open>while (changed)\<close> loop of \<^verbatim>\<open>first\<close>.\<close>

partial_function (option) firstLoop :: "RuleSet \<Rightarrow> SetTable \<Rightarrow> (error + SetTable) option" where
  "firstLoop rules first =
     (case foldE firstKey rules (first, False) of
        Inl e \<Rightarrow> Some (Inl e)
      | Inr (first', changed) \<Rightarrow> if changed then firstLoop rules first' else Some (Inr first'))"

declare firstLoop.simps [code]

definition Parser_first :: "RuleSet \<Rightarrow> (error + SetTable) option" where
  "Parser_first rules = firstLoop rules (firstInit rules)"

text \<open>
  The scan \<^verbatim>\<open>for (let j = i + 1; j <= rule.length; j++)\<close> of \<^verbatim>\<open>follow\<close>, over the
  elements after position \<open>i\<close>.
\<close>

fun followScan :: "SetTable \<Rightarrow> string \<Rightarrow> string \<Rightarrow> SetTable \<Rightarrow> Rule \<Rightarrow> error + SetTable" where
  "followScan first key el follow [] =
     (case map_of follow el of
        None \<Rightarrow> Inl TypeError
      | Some a \<Rightarrow>
          (case map_of follow key of
             None \<Rightarrow> Inl TypeError
           | Some b \<Rightarrow> Inr (AList.update el (setUnion a b) follow)))"
| "followScan first key el follow (next # rest) =
     (case map_of follow el of
        None \<Rightarrow> Inl TypeError
      | Some a \<Rightarrow>
          (case map_of first (Parser_base next) of
             None \<Rightarrow> Inl TypeError
           | Some b \<Rightarrow>
               let follow' = AList.update el (setUnion a b) follow
               in if Parser_canOmit next then followScan first key el follow' rest
                  else Inr follow'))"

text \<open>
  The body of \<^verbatim>\<open>for (let i = 0; i < rule.length; i++)\<close> for the element \<open>rule[i]\<close>.
  With a key \<^verbatim>\<open>hasOwnProperty\<close> in the rules, \<^verbatim>\<open>rules.hasOwnProperty\<close> is a list
  of rules and the call throws.
\<close>

definition followEl :: "RuleSet \<Rightarrow> SetTable \<Rightarrow> string \<Rightarrow> SetTable \<times> bool \<Rightarrow> string \<Rightarrow> Rule
                          \<Rightarrow> error + (SetTable \<times> bool)" where
  "followEl rules first key st ruleI after =
     (case st of (follow, changed) \<Rightarrow>
        let el = Parser_base ruleI
        in if map_of rules ''hasOwnProperty'' \<noteq> None then Inl TypeError
           else if map_of rules el = None then Inr (follow, changed)
           else (case map_of follow el of
                   None \<Rightarrow> Inl TypeError
                 | Some prev \<Rightarrow>
                     (case (if Parser_canRepeat ruleI
                            then (case map_of first el of
                                    None \<Rightarrow> Inl TypeError
                                  | Some b \<Rightarrow> Inr (AList.update el (setUnion prev b) follow))
                            else Inr follow) of
                        Inl e \<Rightarrow> Inl e
                      | Inr follow1 \<Rightarrow>
                          (case followScan first key el follow1 after of
                             Inl e \<Rightarrow> Inl e
                           | Inr follow2 \<Rightarrow>
                               (case map_of follow2 el of
                                  None \<Rightarrow> Inl TypeError
                                | Some now \<Rightarrow>
                                    Inr (follow2, changed \<or> length now > length prev))))))"

text \<open>The loop over the positions of one rule, on the elements from position \<open>i\<close> on.\<close>

fun followRule :: "RuleSet \<Rightarrow> SetTable \<Rightarrow> string \<Rightarrow> SetTable \<times> bool \<Rightarrow> Rule
                     \<Rightarrow> error + (SetTable \<times> bool)" where
  "followRule rules first key st [] = Inr st"
| "followRule rules first key st (ruleI # after) =
     (case followEl rules first key st ruleI after of
        Inl e \<Rightarrow> Inl e
      | Inr st' \<Rightarrow> followRule rules first key st' after)"

definition followKey :: "RuleSet \<Rightarrow> SetTable \<Rightarrow> SetTable \<times> bool \<Rightarrow> string \<times> Rule list
                           \<Rightarrow> error + (SetTable \<times> bool)" where
  "followKey rules first st entry =
     (case entry of (key, prods) \<Rightarrow> foldE (followRule rules first key) prods st)"

text \<open>The \<^verbatim>\<open>while (changed)\<close> loop of \<^verbatim>\<open>follow\<close>.\<close>

partial_function (option) followLoop ::
  "RuleSet \<Rightarrow> SetTable \<Rightarrow> SetTable \<Rightarrow> (error + SetTable) option" where
  "followLoop rules first follow =
     (case foldE (followKey rules first) rules (follow, False) of
        Inl e \<Rightarrow> Some (Inl e)
      | Inr (follow', changed) \<Rightarrow>
          if changed then followLoop rules first follow' else Some (Inr follow'))"

declare followLoop.simps [code]

text \<open>
  \<^verbatim>\<open>Parser.follow(rules, start)\<close>; \<^verbatim>\<open>follow[start].add("$")\<close> throws when
  \<open>start\<close> is not a key of the rules.
\<close>

definition followInit :: "RuleSet \<Rightarrow> SetTable" where
  "followInit rules = foldl (\<lambda>follow entry. AList.update (fst entry) [] follow) [] rules"

definition Parser_follow :: "RuleSet \<Rightarrow> string \<Rightarrow> (error + SetTable) option" where
  "Parser_follow rules start =
     (let follow = followInit rules
      in case map_of follow start of
           None \<Rightarrow> Some (Inl TypeError)
         | Some s \<Rightarrow>
             (case Parser_first rules of
                None \<Rightarrow> None
              | Some (Inl e) \<Rightarrow> Some (Inl e)
              | Some (Inr first) \<Rightarrow>
                  followLoop rules first (AList.update start (setAdd s ''$'') follow)))"

section \<open>Parser: item sets\<close>

text \<open>
  \<^verbatim>\<open>skipOmit(root)\<close>: the loop \<^verbatim>\<open>for (let i = root.dot; i < root.children.length; i++)\<close>
  runs over the elements from the dot on.
\<close>

fun skipOmitFrom :: "string \<Rightarrow> Rule \<Rightarrow> nat \<Rightarrow> string list \<Rightarrow> DottedRule list" where
  "skipOmitFrom key children i [] = []"
| "skipOmitFrom key children i (el # rest) =
     (if Parser_canOmit el
      then \<lparr>d_key = key, d_children = children, d_dot = i + 1\<rparr>
             # skipOmitFrom key children (i + 1) rest
      else [])"

definition Parser_skipOmit :: "DottedRule \<Rightarrow> DottedRule list" where
  "Parser_skipOmit root =
     root # skipOmitFrom (d_key root) (d_children root) (d_dot root)
              (drop (d_dot root) (d_children root))"

text \<open>\<^verbatim>\<open>if (!ruleSet.find(r => deepEqual(r, nextRule))) ruleSet.push(nextRule)\<close>\<close>

definition pushNew :: "DottedRule list \<Rightarrow> DottedRule \<Rightarrow> DottedRule list" where
  "pushNew ruleSet nextRule = (if nextRule \<in> set ruleSet then ruleSet else ruleSet @ [nextRule])"

text \<open>
  The symbol after the dot, \<^verbatim>\<open>this.base(rule.children[rule.dot])\<close>: \<^verbatim>\<open>undefined\<close>
  when the dot is at the end.
\<close>

definition afterDot :: "DottedRule \<Rightarrow> string option" where
  "afterDot rule = map_option Parser_base (at (d_children rule) (d_dot rule))"

text \<open>The items \<^verbatim>\<open>closure\<close> adds for the non-terminal \<open>nt\<close>, in order.\<close>

definition expand :: "Rule list \<Rightarrow> string \<Rightarrow> DottedRule list" where
  "expand prods nt =
     concat (map (\<lambda>children. Parser_skipOmit \<lparr>d_key = nt, d_children = children, d_dot = 0\<rparr>) prods)"

text \<open>
  One pass of the loop of \<^verbatim>\<open>closure\<close>, on the item at position \<open>n\<close>. For a
  completed item the name \<open>nt\<close> is \<^verbatim>\<open>undefined\<close>, and
  \<^verbatim>\<open>rules.hasOwnProperty(undefined)\<close> asks for the key \<^verbatim>\<open>"undefined"\<close>. The
  items the source adds for it have the value \<^verbatim>\<open>undefined\<close> as their key, which
  a \<open>DottedRule\<close> cannot hold: the rules are taken to have no key named
  \<^verbatim>\<open>undefined\<close> (\<open>namesInScope\<close> above), and then nothing is added.
\<close>

definition closureStep :: "RuleSet \<Rightarrow> DottedRule list \<Rightarrow> nat \<Rightarrow> DottedRule list" where
  "closureStep rules ruleSet n =
     (let nt = keyOf (afterDot (ruleSet ! n))
      in case map_of rules nt of
           None \<Rightarrow> ruleSet
         | Some prods \<Rightarrow> foldl pushNew ruleSet (expand prods nt))"

text \<open>Every item \<^verbatim>\<open>closure\<close> can add: the expansions of the rules' own entries.\<close>

definition itemUniv :: "RuleSet \<Rightarrow> DottedRule set" where
  "itemUniv rules = (\<Union>entry \<in> set rules. set (expand (snd entry) (fst entry)))"

lemma set_foldl_pushNew: "set (foldl pushNew ruleSet xs) = set ruleSet \<union> set xs"
  by (induction xs arbitrary: ruleSet) (auto simp: pushNew_def)

lemma length_foldl_pushNew:
  "length (foldl pushNew ruleSet xs) = length ruleSet + card (set xs - set ruleSet)"
proof (induction xs arbitrary: ruleSet)
  case Nil
  then show ?case by simp
next
  case (Cons x xs)
  show ?case
  proof (cases "x \<in> set ruleSet")
    case True
    then have "set (x # xs) - set ruleSet = set xs - set ruleSet" by auto
    with Cons[of ruleSet] True show ?thesis by (simp add: pushNew_def)
  next
    case False
    have "set (x # xs) - set ruleSet = insert x (set xs - set (ruleSet @ [x]))"
      using False by auto
    moreover have "x \<notin> set xs - set (ruleSet @ [x])" by simp
    ultimately have "card (set (x # xs) - set ruleSet) = Suc (card (set xs - set (ruleSet @ [x])))"
      by (simp del: set_append)
    with Cons[of "ruleSet @ [x]"] False show ?thesis by (simp add: pushNew_def)
  qed
qed

lemma closureStep_grows:
  "\<exists>new. set new \<subseteq> itemUniv rules \<and> set (closureStep rules ruleSet n) = set ruleSet \<union> set new
         \<and> length (closureStep rules ruleSet n) = length ruleSet + card (set new - set ruleSet)"
proof (cases "map_of rules (keyOf (afterDot (ruleSet ! n)))")
  case None
  then show ?thesis by (intro exI[of _ "[]"]) (simp add: closureStep_def)
next
  case (Some prods)
  let ?nt = "keyOf (afterDot (ruleSet ! n))"
  from Some have "(?nt, prods) \<in> set rules" by (rule map_of_SomeD)
  then have "set (expand prods ?nt) \<subseteq> itemUniv rules" by (force simp: itemUniv_def)
  then show ?thesis
    using Some
    by (intro exI[of _ "expand prods ?nt"])
       (simp add: closureStep_def set_foldl_pushNew length_foldl_pushNew)
qed

lemma closureStep_measure:
  assumes "n < length ruleSet"
  shows "2 * card (itemUniv rules - set (closureStep rules ruleSet n))
           + (length (closureStep rules ruleSet n) - Suc n)
         < 2 * card (itemUniv rules - set ruleSet) + (length ruleSet - n)"
proof -
  obtain new where new: "set new \<subseteq> itemUniv rules"
      "set (closureStep rules ruleSet n) = set ruleSet \<union> set new"
      "length (closureStep rules ruleSet n) = length ruleSet + card (set new - set ruleSet)"
    using closureStep_grows by blast
  have fin: "finite (itemUniv rules)" by (simp add: itemUniv_def)
  let ?k = "card (set new - set ruleSet)"
  have sub: "set new - set ruleSet \<subseteq> itemUniv rules - set ruleSet" using new(1) by auto
  have "itemUniv rules - (set ruleSet \<union> set new) = (itemUniv rules - set ruleSet) - (set new - set ruleSet)"
    by auto
  then have "card (itemUniv rules - (set ruleSet \<union> set new)) = card (itemUniv rules - set ruleSet) - ?k"
    using sub fin by (simp add: card_Diff_subset)
  moreover have "?k \<le> card (itemUniv rules - set ruleSet)"
    using sub fin by (simp add: card_mono)
  ultimately show ?thesis using assms new(2,3) by simp
qed

text \<open>
  The loop \<^verbatim>\<open>for (const rule of ruleSet)\<close> of \<^verbatim>\<open>closure\<close>, which visits the items
  pushed while it runs.
\<close>

function closureLoop :: "RuleSet \<Rightarrow> DottedRule list \<Rightarrow> nat \<Rightarrow> DottedRule list" where
  "closureLoop rules ruleSet n =
     (if n < length ruleSet then closureLoop rules (closureStep rules ruleSet n) (Suc n)
      else ruleSet)"
  by pat_completeness auto
termination
  by (relation "measure (\<lambda>(rules, ruleSet, n).
        2 * card (itemUniv rules - set ruleSet) + (length ruleSet - n))")
     (use closureStep_measure in force)+

declare closureLoop.simps [simp del]

definition closureItems :: "RuleSet \<Rightarrow> DottedRule \<Rightarrow> DottedRule list" where
  "closureItems rules root = closureLoop rules (Parser_skipOmit root) 0"

text \<open>
  \<^verbatim>\<open>Parser.closure(rules, root)\<close>. The loop runs at least once, on the root, and
  every pass calls \<^verbatim>\<open>rules.hasOwnProperty(nt)\<close>: with a key \<^verbatim>\<open>hasOwnProperty\<close>
  in the rules the first call throws; without one the method is the inherited one and
  the result is the list the loop builds.
\<close>

definition Parser_closure :: "RuleSet \<Rightarrow> DottedRule \<Rightarrow> error + DottedRule list" where
  "Parser_closure rules root =
     (if map_of rules ''hasOwnProperty'' \<noteq> None then Inl TypeError
      else Inr (closureItems rules root))"

text \<open>
  The sparse array \<^verbatim>\<open>cameFrom\<close>: a read gives a hole out of range, and the
  assignment \<^verbatim>\<open>cameFrom[n] = i\<close> past the end leaves holes in between.
\<close>

definition slotAt :: "slot list \<Rightarrow> nat \<Rightarrow> slot" where
  "slotAt cameFrom n = (if n < length cameFrom then cameFrom ! n else Hole)"

definition slotSet :: "slot list \<Rightarrow> nat \<Rightarrow> nat \<Rightarrow> slot list" where
  "slotSet cameFrom n i =
     (if n < length cameFrom then cameFrom[n := Index i]
      else cameFrom @ replicate (n - length cameFrom) Hole @ [Index i])"

text \<open>An array in a template literal: its elements joined by commas.\<close>

fun joinComma :: "string list \<Rightarrow> string" where
  "joinComma [] = []"
| "joinComma [x] = x"
| "joinComma (x # y # ys) = x @ '','' @ joinComma (y # ys)"

text \<open>
  \<^verbatim>\<open>`Rule ${rule.key} - ${rule.children} is part of a ${first}/${second} conflict`\<close>
\<close>

definition conflict :: "DottedRule \<Rightarrow> string \<Rightarrow> string \<Rightarrow> error" where
  "conflict rule first second =
     Error (''Rule '' @ d_key rule @ '' - '' @ joinComma (d_children rule)
            @ '' is part of a '' @ first @ ''/'' @ second @ '' conflict'')"

text \<open>
  The body of \<^verbatim>\<open>for (const nextRule of this.closure(rules, baseRule))\<close> in
  \<^verbatim>\<open>goto\<close>, for the source item \<open>rule\<close> at index \<open>i\<close>.
\<close>

definition gotoAdd :: "DottedRule \<Rightarrow> nat \<Rightarrow> DottedRule list \<Rightarrow> DottedRule list \<times> slot list
                         \<Rightarrow> DottedRule \<Rightarrow> error + (DottedRule list \<times> slot list)" where
  "gotoAdd rule i trackedRules st nextRule =
     (case st of (output, cameFrom) \<Rightarrow>
        let trackCameFrom = (nextRule \<in> set trackedRules)
        in case findIndex (\<lambda>r. r = nextRule) output of
             None \<Rightarrow>
               Inr (output @ [nextRule],
                    if trackCameFrom then slotSet cameFrom (length output) i else cameFrom)
           | Some ruleIndex \<Rightarrow>
               if (trackCameFrom \<and> slotAt cameFrom ruleIndex \<noteq> Index i)
                  \<or> (\<not> trackCameFrom \<and> slotAt cameFrom ruleIndex \<noteq> Hole)
               then Inl (conflict rule ''reduce'' ''reduce'')
               else Inr (output, cameFrom))"

text \<open>One round of \<^verbatim>\<open>for (let j = 1; j >= 0; j--)\<close>: the dot advanced by \<open>j\<close>.\<close>

definition gotoRound :: "RuleSet \<Rightarrow> DottedRule \<Rightarrow> nat \<Rightarrow> nat \<Rightarrow> DottedRule list \<times> slot list
                           \<Rightarrow> error + (DottedRule list \<times> slot list)" where
  "gotoRound rules rule i j st =
     (let baseRule = \<lparr>d_key = d_key rule, d_children = d_children rule, d_dot = d_dot rule + j\<rparr>
      in case Parser_closure rules baseRule of
           Inl e \<Rightarrow> Inl e
         | Inr items \<Rightarrow> foldE (gotoAdd rule i (Parser_skipOmit baseRule)) items st)"

text \<open>
  The body of \<^verbatim>\<open>for (let i = 0; i < ruleSet.length; i++)\<close>: the round \<open>j = 1\<close>,
  and the round \<open>j = 0\<close> when the element at the dot can repeat.
\<close>

definition gotoItem :: "RuleSet \<Rightarrow> string \<Rightarrow> DottedRule list \<times> slot list \<Rightarrow> nat \<times> DottedRule
                          \<Rightarrow> error + (DottedRule list \<times> slot list)" where
  "gotoItem rules el st entry =
     (case entry of (i, rule) \<Rightarrow>
        if afterDot rule = Some el
        then (case gotoRound rules rule i 1 st of
                Inl e \<Rightarrow> Inl e
              | Inr st' \<Rightarrow>
                  if (case at (d_children rule) (d_dot rule) of
                        None \<Rightarrow> False | Some x \<Rightarrow> Parser_canRepeat x)
                  then gotoRound rules rule i 0 st'
                  else Inr st')
        else Inr st)"

text \<open>\<^verbatim>\<open>Parser.goto(rules, ruleSet, el)\<close>\<close>

definition Parser_goto :: "RuleSet \<Rightarrow> DottedRule list \<Rightarrow> string
                             \<Rightarrow> error + (DottedRule list \<times> slot list)" where
  "Parser_goto rules ruleSet el = foldE (gotoItem rules el) (enumerate 0 ruleSet) ([], [])"

section \<open>Parser: the action table\<close>

text \<open>
  \<^verbatim>\<open>actionTable[i].hasOwnProperty(el)\<close>, with the action found. Once an action was
  entered under the name \<^verbatim>\<open>hasOwnProperty\<close>, the method read from the row is that
  action, and calling it throws.
\<close>

definition rowHasOwn :: "Row \<Rightarrow> string \<Rightarrow> error + Action option" where
  "rowHasOwn row el =
     (if rowGet row ''hasOwnProperty'' \<noteq> None then Inl TypeError else Inr (rowGet row el))"

text \<open>The loop \<^verbatim>\<open>for (const el of follow[rule.key])\<close> that enters the reduce actions.\<close>

definition addReduce :: "DottedRule \<Rightarrow> nat \<Rightarrow> Row \<Rightarrow> string \<Rightarrow> error + Row" where
  "addReduce rule j row el =
     (case rowHasOwn row el of
        Inl e \<Rightarrow> Inl e
      | Inr (Some action) \<Rightarrow> Inl (conflict rule (actionType action) ''reduce'')
      | Inr None \<Rightarrow> Inr (row @ [(el, Reduce (d_key rule) j)]))"

text \<open>
  The body of \<^verbatim>\<open>for (let j = 0; j < states[i].length; j++)\<close> in \<^verbatim>\<open>buildTable\<close>,
  on the states found so far and the row of state \<open>i\<close>. The branch for a dot before
  the end reads the element at the dot, which exists when the dot is inside the rule.
\<close>

definition buildItem :: "RuleSet \<Rightarrow> string \<Rightarrow> SetTable \<Rightarrow> nat
                           \<Rightarrow> DottedRule list list \<times> Row \<Rightarrow> nat \<times> DottedRule
                           \<Rightarrow> error + (DottedRule list list \<times> Row)" where
  "buildItem rules start follow i st entry =
     (case st of (states, row) \<Rightarrow>
      case entry of (j, rule) \<Rightarrow>
        if d_dot rule = length (d_children rule) then
          (if d_key rule = start then
             (case rowHasOwn row ''$'' of
                Inl e \<Rightarrow> Inl e
              | Inr (Some action) \<Rightarrow> Inl (conflict rule (actionType action) ''reduce'')
              | Inr None \<Rightarrow> Inr (states, row @ [(''$'', Accept start)]))
           else
             (case map_of follow (d_key rule) of
                None \<Rightarrow> Inl TypeError
              | Some els \<Rightarrow>
                  (case foldE (addReduce rule j) els row of
                     Inl e \<Rightarrow> Inl e
                   | Inr row' \<Rightarrow> Inr (states, row'))))
        else
          (case afterDot rule of
             None \<Rightarrow> Inl TypeError
           | Some el \<Rightarrow>
               (case rowHasOwn row el of
                  Inl e \<Rightarrow> Inl e
                | Inr (Some action) \<Rightarrow>
                    if actionType action \<noteq> ''shift''
                    then Inl (conflict rule ''shift'' (actionType action))
                    else Inr (states, row)
                | Inr None \<Rightarrow>
                    (case at states i of
                       None \<Rightarrow> Inl TypeError
                     | Some state \<Rightarrow>
                         (case Parser_goto rules state el of
                            Inl e \<Rightarrow> Inl e
                          | Inr (gotoState, cameFrom) \<Rightarrow>
                              (case findIndex (\<lambda>state. state = gotoState) states of
                                 Some gotoStateIndex \<Rightarrow>
                                   Inr (states, row @ [(el, Shift gotoStateIndex cameFrom)])
                               | None \<Rightarrow>
                                   Inr (states @ [gotoState],
                                        row @ [(el, Shift (length states) cameFrom)])))))))"

text \<open>
  The loop \<^verbatim>\<open>for (let i = 0; i < states.length; i++)\<close>: it runs as long as new states
  are found.
\<close>

partial_function (option) buildLoop ::
  "RuleSet \<Rightarrow> string \<Rightarrow> SetTable \<Rightarrow> DottedRule list list \<Rightarrow> Row list \<Rightarrow> nat
     \<Rightarrow> (error + (DottedRule list list \<times> Row list)) option" where
  "buildLoop rules start follow states actionTable i =
     (if i < length states then
        (case foldE (buildItem rules start follow i) (enumerate 0 (states ! i)) (states, []) of
           Inl e \<Rightarrow> Some (Inl e)
         | Inr (states', row) \<Rightarrow>
             buildLoop rules start follow states' (actionTable @ [row]) (Suc i))
      else Some (Inr (states, actionTable)))"

declare buildLoop.simps [code]

text \<open>
  \<^verbatim>\<open>Parser.buildTable(rules, start)\<close>, with the list of states it has numbered next
  to the table it returns.
\<close>

definition buildStates :: "RuleSet \<Rightarrow> string
                             \<Rightarrow> (error + (DottedRule list list \<times> Row list)) option" where
  "buildStates rules start =
     (case Parser_closure rules \<lparr>d_key = start, d_children = [start], d_dot = 0\<rparr> of
        Inl e \<Rightarrow> Some (Inl e)
      | Inr state0 \<Rightarrow>
          (case Parser_follow rules start of
             None \<Rightarrow> None
           | Some (Inl e) \<Rightarrow> Some (Inl e)
           | Some (Inr follow) \<Rightarrow> buildLoop rules start follow [state0] [] 0))"

definition Parser_buildTable :: "RuleSet \<Rightarrow> string \<Rightarrow> (error + Row list) option" where
  "Parser_buildTable rules start =
     (case buildStates rules start of
        None \<Rightarrow> None
      | Some (Inl e) \<Rightarrow> Some (Inl e)
      | Some (Inr (states, actionTable)) \<Rightarrow> Some (Inr actionTable))"

text \<open>
  What \<^verbatim>\<open>JSON.parse(JSON.stringify(actionTable))\<close> returns: the same rows, with
  every hole of a \<^verbatim>\<open>cameFrom\<close> array turned into \<^verbatim>\<open>null\<close> (JSON has no holes and
  no \<^verbatim>\<open>undefined\<close>; \<^verbatim>\<open>JSON.stringify([1,,2])\<close> is \<^verbatim>\<open>[1,null,2]\<close>).
\<close>

fun jsonSlot :: "slot \<Rightarrow> slot" where
  "jsonSlot Hole = Null"
| "jsonSlot Null = Null"
| "jsonSlot (Index n) = Index n"

fun jsonAction :: "Action \<Rightarrow> Action" where
  "jsonAction (Shift goto cameFrom) = Shift goto (map jsonSlot cameFrom)"
| "jsonAction (Reduce key rule) = Reduce key rule"
| "jsonAction (Accept key) = Accept key"

definition jsonTable :: "Row list \<Rightarrow> Row list" where
  "jsonTable actionTable = map (map (\<lambda>(el, action). (el, jsonAction action))) actionTable"

text \<open>The assertions of the constructor, key by key.\<close>

fun checkRules :: "RuleSet \<Rightarrow> error option" where
  "checkRules [] = None"
| "checkRules ((key, prods) # rest) =
     (if prods = [] then Some (AssertionError ''Each non-terminal should contain at least one rule'')
      else if list_ex (\<lambda>rule. rule = []) prods
      then Some (AssertionError ''Each rule should contain at least one element'')
      else checkRules rest)"

text \<open>
  \<^verbatim>\<open>new Parser(rules, start, version)\<close> on a file system that maps a file name to the
  table stored in it: the parser's action table and the file system afterwards.
\<close>

definition fileName :: "string \<Rightarrow> string" where
  "fileName version = ''dsl-parser_v'' @ version @ ''.json''"

definition Parser_new :: "RuleSet \<Rightarrow> string \<Rightarrow> string option \<Rightarrow> (string \<rightharpoonup> Row list)
                            \<Rightarrow> ((error + Row list) \<times> (string \<rightharpoonup> Row list)) option" where
  "Parser_new rules start version files =
     (case checkRules rules of
        Some e \<Rightarrow> Some (Inl e, files)
      | None \<Rightarrow>
          (case (case version of
                   None \<Rightarrow> None
                 | Some v \<Rightarrow> if v = [] then None else files (fileName v)) of
             Some stored \<Rightarrow> Some (Inr stored, files)
           | None \<Rightarrow>
               (case Parser_buildTable rules start of
                  None \<Rightarrow> None
                | Some (Inl e) \<Rightarrow> Some (Inl e, files)
                | Some (Inr actionTable) \<Rightarrow>
                    Some (Inr actionTable,
                          case version of
                            None \<Rightarrow> files
                          | Some v \<Rightarrow>
                              if v = [] then files
                              else files(fileName v \<mapsto> jsonTable actionTable)))))"

section \<open>Parser: the run-time loop\<close>

record pstate =
  symbolStack :: "tree list"
  readStack :: "nat option list list"
  stateStack :: "nat list"
  p_lexToken :: "LexTree option"
  p_index :: nat
  p_i :: nat

datatype step = Continue pstate | Return tree | Throw error

text \<open>
  \<^verbatim>\<open>xs.splice(-n)\<close>: what stays and what is removed. The start index is
  \<^verbatim>\<open>max(length - n, 0)\<close>; for \<^verbatim>\<open>undefined\<close> and for 0 the argument is \<^verbatim>\<open>NaN\<close> or
  \<^verbatim>\<open>-0\<close>, the start index is 0 and everything is removed.
\<close>

definition spliceLast :: "nat option \<Rightarrow> 'a list \<Rightarrow> 'a list \<times> 'a list" where
  "spliceLast n xs =
     (case n of
        None \<Rightarrow> ([], xs)
      | Some k \<Rightarrow> if k = 0 then ([], xs)
                  else (take (length xs - k) xs, drop (length xs - k) xs))"

text \<open>
  \<^verbatim>\<open>action.cameFrom.map(rule => rule !== undefined ? (readStack[readStack.length - 1][rule] || 0) + 1 : undefined)\<close>:
  \<^verbatim>\<open>map\<close> skips holes, \<^verbatim>\<open>null\<close> is not \<^verbatim>\<open>undefined\<close> and names no element of
  the array, and the callback throws when the read stack is empty.
\<close>

definition countOf :: "nat option list \<Rightarrow> slot \<Rightarrow> nat option" where
  "countOf prev s =
     (case s of
        Hole \<Rightarrow> None
      | Null \<Rightarrow> Some 1
      | Index rule \<Rightarrow> (case at prev rule of Some (Some n) \<Rightarrow> Some (n + 1) | _ \<Rightarrow> Some 1))"

definition readEntry :: "slot list \<Rightarrow> nat option list list \<Rightarrow> error + nat option list" where
  "readEntry cameFrom rs =
     (case top rs of
        None \<Rightarrow> if list_all (\<lambda>s. s = Hole) cameFrom then Inr (map (\<lambda>s. None) cameFrom)
                else Inl TypeError
      | Some prev \<Rightarrow> Inr (map (countOf prev) cameFrom))"

text \<open>The row of the state on top of the stack, \<^verbatim>\<open>this.actionTable[stateStack[stateStack.length - 1]]\<close>.\<close>

definition topRow :: "Row list \<Rightarrow> nat list \<Rightarrow> Row option" where
  "topRow actionTable states =
     (case top states of None \<Rightarrow> None | Some st \<Rightarrow> at actionTable st)"

text \<open>
  A row handed to the lexer as \<^verbatim>\<open>activeTerminals\<close>, read as
  \<^verbatim>\<open>activeTerminals[type]\<close>: the actions of the row are objects, and so are the
  members the row inherits from \<^verbatim>\<open>Object.prototype\<close>.
\<close>

definition activeOf :: "Row \<Rightarrow> (string \<rightharpoonup> jsany)" where
  "activeOf row =
     (\<lambda>el. case rowGet row el of
              Some action \<Rightarrow> Some JObject
            | None \<Rightarrow> if el \<in> set protoNames then Some JObject else None)"

text \<open>The tail of the loop body, \<^verbatim>\<open>readStack.push(...); stateStack.push(action.goto)\<close>.\<close>

definition pushState :: "pstate \<Rightarrow> nat \<Rightarrow> slot list \<Rightarrow> step" where
  "pushState s goto cameFrom =
     (case readEntry cameFrom (readStack s) of
        Inl e \<Rightarrow> Throw e
      | Inr entry \<Rightarrow>
          Continue (s\<lparr>readStack := readStack s @ [entry], stateStack := stateStack s @ [goto]\<rparr>))"

text \<open>
  The \<^verbatim>\<open>case "reduce"\<close> branch: the count \<^verbatim>\<open>readStack[readStack.length - 1][action.rule]\<close>,
  the three \<^verbatim>\<open>splice\<close> calls, and the goto of the parent.
\<close>

definition symbolsReadOf :: "nat option list \<Rightarrow> nat \<Rightarrow> nat option" where
  "symbolsReadOf counts rule = (case at counts rule of Some (Some n) \<Rightarrow> Some n | _ \<Rightarrow> None)"

definition popStacks :: "nat option \<Rightarrow> pstate \<Rightarrow> pstate" where
  "popStacks symbolsRead s =
     s\<lparr>symbolStack := fst (spliceLast symbolsRead (symbolStack s)),
       readStack := fst (spliceLast symbolsRead (readStack s)),
       stateStack := fst (spliceLast symbolsRead (stateStack s))\<rparr>"

definition reduceStep :: "Row list \<Rightarrow> pstate \<Rightarrow> string \<Rightarrow> nat \<Rightarrow> step" where
  "reduceStep actionTable s key rule =
     (case top (readStack s) of
        None \<Rightarrow> Throw TypeError
      | Some counts \<Rightarrow>
          let symbolsRead = symbolsReadOf counts rule;
              parent = Node key (snd (spliceLast symbolsRead (symbolStack s)));
              s' = popStacks symbolsRead s
          in case topRow actionTable (stateStack s') of
               None \<Rightarrow> Throw TypeError
             | Some row \<Rightarrow>
                 (case rowGet row key of
                    Some (Shift goto cameFrom) \<Rightarrow>
                      pushState (s'\<lparr>symbolStack := symbolStack s' @ [parent]\<rparr>) goto cameFrom
                  | _ \<Rightarrow> Throw TypeError))"

text \<open>
  The loop body from \<^verbatim>\<open>// Skip over whitespace\<close> on, for the current token; \<open>s\<close>
  already holds the \<^verbatim>\<open>lexToken\<close> and \<^verbatim>\<open>index\<close> set by the lexing step. For
  a token type the row does not own, \<^verbatim>\<open>row[token.type]\<close> is \<^verbatim>\<open>undefined\<close> or a
  member inherited from \<^verbatim>\<open>Object.prototype\<close>; the latter is truthy and has neither
  a \<^verbatim>\<open>type\<close> nor a \<^verbatim>\<open>cameFrom\<close>, so that \<^verbatim>\<open>action.cameFrom.map\<close> throws.
\<close>

definition dispatch :: "Row list \<Rightarrow> pstate \<Rightarrow> LexTree \<Rightarrow> step" where
  "dispatch actionTable s token =
     (let consumed = s\<lparr>p_i := (if p_lexToken s = None then p_i s + 1 else p_i s),
                       p_lexToken := None\<rparr>
      in if l_type token = ''whitespace'' then Continue consumed
         else (case topRow actionTable (stateStack s) of
                 None \<Rightarrow> Throw TypeError
               | Some row \<Rightarrow>
                   (case rowGet row (l_type token) of
                      None \<Rightarrow>
                        if l_type token \<in> set protoNames then Throw TypeError
                        else Throw (ParseError ''Parser failed to parse symbol''
                                      (l_line token) (l_index token))
                    | Some (Shift goto cameFrom) \<Rightarrow>
                        pushState (consumed\<lparr>symbolStack := symbolStack s @ [Leaf token]\<rparr>)
                          goto cameFrom
                    | Some (Reduce key rule) \<Rightarrow> reduceStep actionTable s key rule
                    | Some (Accept key) \<Rightarrow> Return (Node key (symbolStack s)))))"

text \<open>One iteration of the loop of \<^verbatim>\<open>Parser.parse\<close>.\<close>

definition parseStep :: "Row list \<Rightarrow> Terminal list \<Rightarrow> LexTree list \<Rightarrow> pstate \<Rightarrow> step" where
  "parseStep actionTable terminals tokens s =
     (case (case p_lexToken s of Some lt \<Rightarrow> Some lt | None \<Rightarrow> at tokens (p_i s)) of
        None \<Rightarrow> Throw TypeError
      | Some token \<Rightarrow>
          if p_lexToken s = None \<and> l_type token = ''unknown'' then
            (case Lexer_next terminals token (p_index s)
                    (map_option activeOf (topRow actionTable (stateStack s))) of
               Inl e \<Rightarrow> Throw e
             | Inr lt \<Rightarrow>
                 if l_type lt = ''$''
                 then Continue (s\<lparr>p_i := p_i s + 1, p_lexToken := None, p_index := 0\<rparr>)
                 else (case l_match lt of
                         [] \<Rightarrow> Throw TypeError
                       | m0 # groups \<Rightarrow>
                           dispatch actionTable
                             (s\<lparr>p_lexToken := Some lt, p_index := p_index s + length m0\<rparr>) lt))
          else dispatch actionTable s token)"

definition initialState :: pstate where
  "initialState = \<lparr>symbolStack = [], readStack = [[]], stateStack = [0],
                    p_lexToken = None, p_index = 0, p_i = 0\<rparr>"

text \<open>The loop \<^verbatim>\<open>for (let i = 0; true;)\<close>; a run that never leaves it is \<open>None\<close>.\<close>

partial_function (option) parseLoop ::
  "Row list \<Rightarrow> Terminal list \<Rightarrow> LexTree list \<Rightarrow> pstate \<Rightarrow> (error + tree) option" where
  "parseLoop actionTable terminals tokens s =
     (case parseStep actionTable terminals tokens s of
        Continue s' \<Rightarrow> parseLoop actionTable terminals tokens s'
      | Return t \<Rightarrow> Some (Inr t)
      | Throw e \<Rightarrow> Some (Inl e))"

declare parseLoop.simps [code]

text \<open>\<^verbatim>\<open>parser.parse(lexer, tokens)\<close>, the lexer given by its terminals.\<close>

definition Parser_parse :: "Row list \<Rightarrow> Terminal list \<Rightarrow> LexTree list \<Rightarrow> (error + tree) option" where
  "Parser_parse actionTable terminals tokens =
     parseLoop actionTable terminals tokens initialState"




text \<open>An element without a quantifier, and a rule made of such elements only.\<close>

definition plain :: "string \<Rightarrow> bool" where
  "plain el = (\<not> Parser_canOmit el \<and> \<not> Parser_canRepeat el)"

definition plainRule :: "Rule \<Rightarrow> bool" where
  "plainRule children = list_all plain children"










text \<open>
  The counts a read-stack entry holds for the items of rules without quantifiers, for a
  state at depth \<open>depth\<close> of the stack: nothing for an item with the dot at the start,
  the position of the dot otherwise, which is at most the depth.
\<close>

definition countsOK :: "DottedRule list \<Rightarrow> nat option list \<Rightarrow> nat \<Rightarrow> bool" where
  "countsOK state counts depth =
     (\<forall>j < length state. plainRule (d_children (state ! j)) \<longrightarrow>
        d_dot (state ! j) \<le> depth
        \<and> symbolsReadOf counts j
            = (if d_dot (state ! j) = 0 then None else Some (d_dot (state ! j))))"

definition pathOK :: "DottedRule list list \<Rightarrow> pstate \<Rightarrow> bool" where
  "pathOK states s =
     (length (readStack s) = length (stateStack s)
      \<and> (\<forall>p < length (stateStack s).
            stateStack s ! p < length states
            \<and> countsOK (states ! (stateStack s ! p)) (readStack s ! p) p))"










text \<open>
  The states of the automaton \<^verbatim>\<open>buildTable\<close> explores: the closure of the start
  item, and every state \<^verbatim>\<open>goto\<close> computes from a state for the element after the
  dot of one of its items.
\<close>

inductive_set automaton :: "RuleSet \<Rightarrow> string \<Rightarrow> DottedRule list set"
  for rules :: RuleSet and start :: string where
  start_state:
    "closureItems rules \<lparr>d_key = start, d_children = [start], d_dot = 0\<rparr> \<in> automaton rules start"
| goto_state:
    "state \<in> automaton rules start \<Longrightarrow> x \<in> set state \<Longrightarrow> afterDot x = Some el
     \<Longrightarrow> Parser_goto rules state el = Inr (state', cameFrom)
     \<Longrightarrow> state' \<in> automaton rules start"












section \<open>Visitor\<close>

text \<open>
  A visitor is the table of its \<^verbatim>\<open>visit_<type>\<close> methods. A method receives
  \<^verbatim>\<open>this.visit\<close> to call back into the visitor, the state and the node; it returns
  its result with the state as it has left it, or throws. The recursion through the
  methods has no bound of its own, so \<^verbatim>\<open>visit\<close> takes the depth it may still use
  and returns \<open>None\<close> when that is exhausted.
\<close>

type_synonym ('t, 's) visitFn = "'s \<Rightarrow> tree \<Rightarrow> (error + 't \<times> 's) option"
type_synonym ('t, 's) visitMethod = "('t, 's) visitFn \<Rightarrow> 's \<Rightarrow> tree \<Rightarrow> (error + 't \<times> 's) option"

text \<open>
  \<^verbatim>\<open>visitChildren\<close>: every child but the last is visited for its effect, the last for
  the result; with no child at all the last child is \<^verbatim>\<open>undefined\<close> and reading its
  type throws.
\<close>

fun visitChildrenWith :: "('t, 's) visitFn \<Rightarrow> 's \<Rightarrow> tree list \<Rightarrow> (error + 't \<times> 's) option" where
  "visitChildrenWith visit state [] = Some (Inl TypeError)"
| "visitChildrenWith visit state [child] = visit state child"
| "visitChildrenWith visit state (child # rest) =
     (case visit state child of
        None \<Rightarrow> None
      | Some (Inl e) \<Rightarrow> Some (Inl e)
      | Some (Inr (r, state')) \<Rightarrow> visitChildrenWith visit state' rest)"

primrec Visitor_visit :: "nat \<Rightarrow> (string \<rightharpoonup> ('t, 's) visitMethod) \<Rightarrow> 's \<Rightarrow> tree
                            \<Rightarrow> (error + 't \<times> 's) option" where
  "Visitor_visit 0 = (\<lambda>methods state tree. None)"
| "Visitor_visit (Suc depth) = (\<lambda>methods state tree.
     case methods (tree_type tree) of
       Some m \<Rightarrow> m (Visitor_visit depth methods) state tree
     | None \<Rightarrow>
         (case tree of
            Node ty children \<Rightarrow> visitChildrenWith (Visitor_visit depth methods) state children
          | Leaf l \<Rightarrow> Some (Inl (Error ''Each terminal should have a corresponding visit method''))))"

definition Visitor_visitChildren :: "nat \<Rightarrow> (string \<rightharpoonup> ('t, 's) visitMethod) \<Rightarrow> 's \<Rightarrow> tree list
                                       \<Rightarrow> (error + 't \<times> 's) option" where
  "Visitor_visitChildren depth methods state children =
     visitChildrenWith (Visitor_visit depth methods) state children"

section \<open>Grammars of the scenarios\<close>

text \<open>
  The grammar \<^verbatim>\<open>list \<rightarrow> "[" item* "]"\<close>, \<^verbatim>\<open>item \<rightarrow> "a"\<close> with the start symbol
  \<^verbatim>\<open>list\<close>, and the action table \<^verbatim>\<open>buildTable\<close> computes for it.
\<close>

definition listRules :: RuleSet where
  "listRules = [(''list'', [[''['', ''item*'', '']'']]), (''item'', [[''a'']])]"

definition listTable :: "Row list" where
  "listTable =
     [[(''list'', Shift 1 [Index 0]), (''['', Shift 2 [Index 1, Index 1])],
      [(''$'', Accept ''list'')],
      [(''item'', Shift 3 [Index 0, Index 0]), ('']'', Shift 4 [Index 1]),
       (''a'', Shift 5 [Index 2])],
      [('']'', Shift 4 [Index 0]), (''item'', Shift 3 [Index 1, Index 1]),
       (''a'', Shift 5 [Index 2])],
      [(''$'', Accept ''list'')],
      [(''a'', Reduce ''item'' 0), ('']'', Reduce ''item'' 0)]]"

text \<open>
  The grammar \<^verbatim>\<open>S \<rightarrow> "a" B "c" | "a" B "d"\<close>, \<^verbatim>\<open>B \<rightarrow> "b"\<close> with the start symbol
  \<^verbatim>\<open>S\<close>, and its action table: the shift on \<^verbatim>\<open>a\<close> has a hole in its
  \<^verbatim>\<open>cameFrom\<close> array, at the item \<^verbatim>\<open>B \<rightarrow> \<bullet> "b"\<close> that the closure adds between the
  two advanced items.
\<close>

definition sRules :: RuleSet where
  "sRules = [(''S'', [[''a'', ''B'', ''c''], [''a'', ''B'', ''d'']]), (''B'', [[''b'']])]"

definition sTable :: "Row list" where
  "sTable =
     [[(''S'', Shift 1 [Index 0]), (''a'', Shift 2 [Index 1, Hole, Index 2])],
      [(''$'', Accept ''S'')],
      [(''B'', Shift 3 [Index 0, Index 2]), (''b'', Shift 4 [Index 1])],
      [(''c'', Shift 5 [Index 0]), (''d'', Shift 6 [Index 1])],
      [(''c'', Reduce ''B'' 0), (''d'', Reduce ''B'' 0)],
      [(''$'', Accept ''S'')],
      [(''$'', Accept ''S'')]]"

text \<open>A visitor with the single method \<^verbatim>\<open>visit_number\<close>.\<close>

definition numberMethod :: "(int, unit) visitMethod" where
  "numberMethod visit state tree = Some (Inr (1, state))"


text \<open>
  A grammar with a rule that can match nothing, \<^verbatim>\<open>{S: [["x", "A", "b"]], A: [["a?"]]}\<close>,
  and the table \<^verbatim>\<open>buildTable\<close> returns for it.
\<close>

definition optRules :: RuleSet where
  "optRules = [(''S'', [[''x'', ''A'', ''b'']]), (''A'', [[''a?'']])]"

definition optTable :: "Row list" where
  "optTable =
     [[(''S'', Shift 1 [Index 0]), (''x'', Shift 2 [Index 1])],
      [(''$'', Accept ''S'')],
      [(''A'', Shift 3 [Index 0]), (''a'', Shift 4 [Index 1]), (''b'', Reduce ''A'' 2)],
      [(''b'', Shift 5 [Index 0])],
      [(''b'', Reduce ''A'' 0)],
      [(''$'', Accept ''S'')]]"

text \<open>The test of the comment pattern \<^verbatim>\<open>/^#/\<close> on a line.\<close>

definition hashComment :: "string \<Rightarrow> bool" where
  "hashComment line = (take 1 line = ''#'')"

section \<open>Properties of the lexer\<close>

subsection \<open>Runs of the line loop\<close>

lemma option_eqI: "(\<And>r. a = Some r \<longleftrightarrow> b = Some r) \<Longrightarrow> a = (b :: 'a option)"
  by (cases a; cases b; auto)

lemma nextLoop_cong:
  assumes "\<And>t. t \<in> set ts \<Longrightarrow> t_pattern t str i = t_pattern t str' i'"
      and "l_index T + i = l_index T' + i'" "l_line T = l_line T'"
  shows "nextLoop ts T str i a = nextLoop ts T' str' i' a"
  using assms by (induction ts) (auto split: option.splits)

lemma Lexer_next_shift:
  assumes "\<And>t. t \<in> set ts \<Longrightarrow> t_pattern t (s1 @ s2) (length s1 + j) = t_pattern t s2 j"
  shows "Lexer_next ts (lineToken (s1 @ s2) c l) (length s1 + j) a
       = Lexer_next ts (lineToken s2 (c + length s1) l) j a"
  using nextLoop_cong[of ts "s1 @ s2" "length s1 + j" s2 j "lineToken (s1 @ s2) c l" "lineToken s2 (c + length s1) l" a] assms
  by (auto simp: Lexer_next_def lineToken_def)

lemma lexLine_step_Some:
  "lexLine ts T j out = Some r \<longleftrightarrow>
     (case Lexer_next ts T j None of
        Inl e \<Rightarrow> r = Inl e
      | Inr lt \<Rightarrow>
          if l_type lt = ''$'' then r = Inr out
          else (case l_match lt of
                  [] \<Rightarrow> r = Inl TypeError
                | m0 # groups \<Rightarrow> lexLine ts T (j + length m0) (out @ [lt]) = Some r))"
  by (subst lexLine.simps) (auto split: sum.splits list.splits)

lemma lexLine_shift_fwd:
  assumes run: "lexLine ts T j' out = Some r"
      and T: "T = lineToken (s1 @ s2) c l" and j': "j' = length s1 + j"
      and H: "\<forall>t \<in> set ts. \<forall>k. t_pattern t (s1 @ s2) (length s1 + k) = t_pattern t s2 k"
  shows "lexLine ts (lineToken s2 (c + length s1) l) j out = Some r"
proof -
  define Q where "Q = (\<lambda>ts' T' j' out r. ts' = ts \<and> T' = T \<longrightarrow>
          (\<forall>j. j' = length s1 + j \<longrightarrow> lexLine ts (lineToken s2 (c + length s1) l) j out = Some r))"
  have "Q ts T j' out r"
  proof (rule lexLine.raw_induct[where P = Q, OF _ run], goal_cases)
    case (1 f ts' T' j' out r)
    show ?case
      unfolding Q_def
    proof (intro impI allI, elim conjE)
      fix j assume eqs: "ts' = ts" "T' = T" "j' = length s1 + j"
      have nx: "Lexer_next ts T j' None = Lexer_next ts (lineToken s2 (c + length s1) l) j None"
        unfolding T eqs by (rule Lexer_next_shift) (use H in blast)
      have IH: "f ts T (length s1 + k) out' = Some r \<Longrightarrow>
          lexLine ts (lineToken s2 (c + length s1) l) k out' = Some r" for k out'
        using 1(1)[of ts T "length s1 + k" out' r] unfolding Q_def by blast
      show "lexLine ts (lineToken s2 (c + length s1) l) j out = Some r"
        unfolding lexLine_step_Some[of ts "lineToken s2 (c + length s1) l" j out r]
        using 1(2) IH unfolding nx[symmetric] eqs
        by (auto split: sum.splits list.splits if_splits simp: add.assoc)
    qed
  qed
  then show ?thesis unfolding Q_def using j' by blast
qed

lemma lexLine_shift_bwd:
  assumes run: "lexLine ts T2 j out = Some r"
      and T: "T2 = lineToken s2 (c + length s1) l"
      and H: "\<forall>t \<in> set ts. \<forall>k. t_pattern t (s1 @ s2) (length s1 + k) = t_pattern t s2 k"
  shows "lexLine ts (lineToken (s1 @ s2) c l) (length s1 + j) out = Some r"
proof -
  define Q where "Q = (\<lambda>ts' T' j out r. ts' = ts \<and> T' = T2 \<longrightarrow>
          lexLine ts (lineToken (s1 @ s2) c l) (length s1 + j) out = Some r)"
  have "Q ts T2 j out r"
  proof (rule lexLine.raw_induct[where P = Q, OF _ run], goal_cases)
    case (1 f ts' T' j out r)
    show ?case
      unfolding Q_def
    proof (intro impI, elim conjE)
      assume eqs: "ts' = ts" "T' = T2"
      have nx: "Lexer_next ts (lineToken (s1 @ s2) c l) (length s1 + j) None = Lexer_next ts T2 j None"
        unfolding T by (rule Lexer_next_shift) (use H in blast)
      have IH: "f ts T2 k out' = Some r \<Longrightarrow>
          lexLine ts (lineToken (s1 @ s2) c l) (length s1 + k) out' = Some r" for k out'
        using 1(1)[of ts T2 k out' r] unfolding Q_def by blast
      show "lexLine ts (lineToken (s1 @ s2) c l) (length s1 + j) out = Some r"
        unfolding lexLine_step_Some[of ts "lineToken (s1 @ s2) c l" "length s1 + j" out r] nx
        using 1(2) IH unfolding eqs
        by (auto split: sum.splits list.splits if_splits simp: add.assoc)
    qed
  qed
  then show ?thesis unfolding Q_def by blast
qed

lemma lexLine_shift:
  assumes "\<forall>t \<in> set ts. \<forall>k. t_pattern t (s1 @ s2) (length s1 + k) = t_pattern t s2 k"
  shows "lexLine ts (lineToken (s1 @ s2) c l) (length s1 + j) out
       = lexLine ts (lineToken s2 (c + length s1) l) j out"
  by (rule option_eqI) (use lexLine_shift_fwd[OF _ refl refl assms] lexLine_shift_bwd[OF _ refl assms] in blast)


lemma lexLine_run_induct [consumes 1, case_names step]:
  assumes run: "lexLine ts T i out = Some r"
      and step: "\<And>i out. lexLine ts T i out = Some r \<Longrightarrow>
        (\<And>lt m0 groups. Lexer_next ts T i None = Inr lt \<Longrightarrow> l_type lt \<noteq> ''$'' \<Longrightarrow>
            l_match lt = m0 # groups \<Longrightarrow> lexLine ts T (i + length m0) (out @ [lt]) = Some r \<Longrightarrow>
            P (i + length m0) (out @ [lt])) \<Longrightarrow> P i out"
  shows "P i out"
proof -
  define Q where "Q = (\<lambda>ts' T' i out r'. ts' = ts \<and> T' = T \<and> r' = r \<longrightarrow>
                        lexLine ts T i out = Some r \<and> P i out)"
  have "Q ts T i out r"
  proof (rule lexLine.raw_induct[where P = Q, OF _ run], goal_cases)
    case (1 f ts' T' i out r')
    show ?case
      unfolding Q_def
    proof (intro impI, elim conjE)
      assume eqs: "ts' = ts" "T' = T" "r' = r"
      have IH: "f ts T k out' = Some r \<Longrightarrow> lexLine ts T k out' = Some r \<and> P k out'" for k out'
        using 1(1)[of ts T k out' r] unfolding Q_def by blast
      have real: "lexLine ts T i out = Some r"
        unfolding lexLine_step_Some[of ts T i out r]
        using 1(2) IH unfolding eqs
        by (auto split: sum.splits list.splits if_splits)
      have "P i out"
      proof (rule step[OF real])
        fix lt m0 groups
        assume "Lexer_next ts T i None = Inr lt" "l_type lt \<noteq> ''$''" "l_match lt = m0 # groups"
        then have "f ts T (i + length m0) (out @ [lt]) = Some r"
          using 1(2) unfolding eqs by simp
        then show "P (i + length m0) (out @ [lt])" using IH by blast
      qed
      with real show "lexLine ts T i out = Some r \<and> P i out" by blast
    qed
  qed
  then show ?thesis unfolding Q_def by blast
qed

lemma nextLoop_type:
  "nextLoop ts T str i a = Inr lt \<Longrightarrow> l_type lt \<in> t_type ` set ts"
  by (induction ts) (auto split: option.splits if_splits)

lemma Lexer_next_prefix:
  assumes "i < length s1"
      and "\<forall>t \<in> set ts. \<forall>k<length s1. t_pattern t (s1 @ s2) k = t_pattern t s1 k"
  shows "Lexer_next ts (lineToken (s1 @ s2) c l) i a = Lexer_next ts (lineToken s1 c l) i a"
  using nextLoop_cong[of ts "s1 @ s2" i s1 i "lineToken (s1 @ s2) c l" "lineToken s1 c l" a] assms
  by (auto simp: Lexer_next_def lineToken_def)

lemma Lexer_next_inside:
  assumes nx: "Lexer_next ts (lineToken s1 c l) i None = Inr lt" and i: "i < length s1"
      and nd: "\<forall>t \<in> set ts. t_type t \<noteq> ''$''"
      and W: "\<forall>t \<in> set ts. \<forall>k<length s1. \<forall>m0 g. t_pattern t s1 k = Some (m0 # g) \<longrightarrow> k + length m0 \<le> length s1"
  shows "l_type lt \<noteq> ''$'' \<and> (\<forall>m0 g. l_match lt = m0 # g \<longrightarrow> i + length m0 \<le> length s1)"
proof -
  from nx i have nl: "nextLoop ts (lineToken s1 c l) s1 i None = Inr lt"
    by (simp add: Lexer_next_def lineToken_def)
  have "\<exists>t \<in> set ts. l_type lt = t_type t \<and> t_pattern t s1 i = Some (l_match lt)"
    using nl by (induction ts) (auto split: option.splits if_splits)
  with nd W i show ?thesis by fastforce
qed


lemma lexLine_at_end:
  "lexLine ts (lineToken s1 c l) (length s1) out = Some (Inr out)"
  by (subst lexLine.simps) (simp add: Lexer_next_def lineToken_def)

lemma lexLine_prefix_terminates:
  assumes run: "lexLine ts (lineToken (s1 @ s2) c l) i out = Some r" and i: "i \<le> length s1"
      and nd: "\<forall>t \<in> set ts. t_type t \<noteq> ''$''"
      and H1: "\<forall>t \<in> set ts. \<forall>k<length s1. t_pattern t (s1 @ s2) k = t_pattern t s1 k"
      and W: "\<forall>t \<in> set ts. \<forall>k<length s1. \<forall>m0 g. t_pattern t (s1 @ s2) k = Some (m0 # g) \<longrightarrow> k + length m0 \<le> length s1"
  shows "\<exists>x. lexLine ts (lineToken s1 c l) i out = Some x"
  using run i
proof (induction rule: lexLine_run_induct)
  case (step i out)
  show ?case
  proof (cases "i = length s1")
    case True
    then show ?thesis using lexLine_at_end by blast
  next
    case False
    with step(3) have i: "i < length s1" by simp
    have W': "\<forall>t \<in> set ts. \<forall>k<length s1. \<forall>m0 g. t_pattern t s1 k = Some (m0 # g) \<longrightarrow> k + length m0 \<le> length s1"
      using W H1 by simp
    have nx: "Lexer_next ts (lineToken (s1 @ s2) c l) i None = Lexer_next ts (lineToken s1 c l) i None"
      by (rule Lexer_next_prefix[OF i H1])
    show ?thesis
    proof (cases "Lexer_next ts (lineToken s1 c l) i None")
      case (Inl e)
      then show ?thesis by (subst lexLine.simps) simp
    next
      case (Inr lt)
      note ins = Lexer_next_inside[OF Inr i nd W']
      show ?thesis
      proof (cases "l_match lt")
        case Nil
        then show ?thesis using Inr ins by (subst lexLine.simps) simp
      next
        case (Cons m0 groups)
        have "lexLine ts (lineToken (s1 @ s2) c l) (i + length m0) (out @ [lt]) = Some r"
          using step(1) nx Inr ins Cons by (subst (asm) lexLine.simps) simp
        from step(2)[OF _ _ Cons this] nx Inr ins Cons
        have "\<exists>x. lexLine ts (lineToken s1 c l) (i + length m0) (out @ [lt]) = Some x" by simp
        then show ?thesis using Inr ins Cons by (subst lexLine.simps) simp
      qed
    qed
  qed
qed

lemma lexLine_prefix_run:
  assumes run: "lexLine ts (lineToken s1 c l) i out = Some x" and i: "i \<le> length s1"
      and nd: "\<forall>t \<in> set ts. t_type t \<noteq> ''$''"
      and H1: "\<forall>t \<in> set ts. \<forall>k<length s1. t_pattern t (s1 @ s2) k = t_pattern t s1 k"
      and W: "\<forall>t \<in> set ts. \<forall>k<length s1. \<forall>m0 g. t_pattern t (s1 @ s2) k = Some (m0 # g) \<longrightarrow> k + length m0 \<le> length s1"
  shows "lexLine ts (lineToken (s1 @ s2) c l) i out =
           (case x of Inl e \<Rightarrow> Some (Inl e)
            | Inr out' \<Rightarrow> lexLine ts (lineToken (s1 @ s2) c l) (length s1) out')"
  using run i
proof (induction rule: lexLine_run_induct)
  case (step i out)
  show ?case
  proof (cases "i = length s1")
    case True
    then show ?thesis using step(1) lexLine_at_end[of ts s1 c l out] by auto
  next
    case False
    with step(3) have i: "i < length s1" by simp
    have W': "\<forall>t \<in> set ts. \<forall>k<length s1. \<forall>m0 g. t_pattern t s1 k = Some (m0 # g) \<longrightarrow> k + length m0 \<le> length s1"
      using W H1 by simp
    have nx: "Lexer_next ts (lineToken (s1 @ s2) c l) i None = Lexer_next ts (lineToken s1 c l) i None"
      by (rule Lexer_next_prefix[OF i H1])
    show ?thesis
    proof (cases "Lexer_next ts (lineToken s1 c l) i None")
      case (Inl e)
      then show ?thesis using step(1) nx
        by (subst lexLine.simps, subst (asm) lexLine.simps) auto
    next
      case (Inr lt)
      note ins = Lexer_next_inside[OF Inr i nd W']
      show ?thesis
      proof (cases "l_match lt")
        case Nil
        then show ?thesis using Inr ins step(1) nx
          by (subst lexLine.simps, subst (asm) lexLine.simps) auto
      next
        case (Cons m0 groups)
        have "lexLine ts (lineToken s1 c l) (i + length m0) (out @ [lt]) = Some x"
          using step(1) Inr ins Cons by (subst (asm) lexLine.simps) simp
        from step(2)[OF Inr _ Cons this] ins Cons
        have "lexLine ts (lineToken (s1 @ s2) c l) (i + length m0) (out @ [lt]) =
           (case x of Inl e \<Rightarrow> Some (Inl e)
            | Inr out' \<Rightarrow> lexLine ts (lineToken (s1 @ s2) c l) (length s1) out')" by simp
        then show ?thesis using nx Inr ins Cons by (subst lexLine.simps) simp
      qed
    qed
  qed
qed

lemma lexLine_concat:
  assumes nd: "\<forall>t \<in> set ts. t_type t \<noteq> ''$''"
      and H1: "\<forall>t \<in> set ts. \<forall>k<length s1. t_pattern t (s1 @ s2) k = t_pattern t s1 k"
      and H2: "\<forall>t \<in> set ts. \<forall>k. t_pattern t (s1 @ s2) (length s1 + k) = t_pattern t s2 k"
      and W: "\<forall>t \<in> set ts. \<forall>k<length s1. \<forall>m0 g. t_pattern t (s1 @ s2) k = Some (m0 # g) \<longrightarrow> k + length m0 \<le> length s1"
  shows "lexLine ts (lineToken (s1 @ s2) c l) 0 out =
           (case lexLine ts (lineToken s1 c l) 0 out of
              None \<Rightarrow> None
            | Some (Inl e) \<Rightarrow> Some (Inl e)
            | Some (Inr out') \<Rightarrow> lexLine ts (lineToken s2 (c + length s1) l) 0 out')"
proof (cases "lexLine ts (lineToken s1 c l) 0 out")
  case None
  have "lexLine ts (lineToken (s1 @ s2) c l) 0 out = None"
  proof (rule ccontr)
    assume "lexLine ts (lineToken (s1 @ s2) c l) 0 out \<noteq> None"
    then obtain r where "lexLine ts (lineToken (s1 @ s2) c l) 0 out = Some r" by blast
    from lexLine_prefix_terminates[OF this _ nd H1 W] None show False by simp
  qed
  with None show ?thesis by simp
next
  case (Some x)
  from lexLine_prefix_run[OF Some _ nd H1 W] lexLine_shift[OF H2, of c l 0]
  show ?thesis using Some by (simp split: sum.splits)
qed

subsection \<open>What \<^verbatim>\<open>next\<close> returns\<close>

lemma nextLoop_find:
  "nextLoop terminals token str index activeTerminals =
     (case find (\<lambda>t. eligible activeTerminals t \<and> t_pattern t str index \<noteq> None) terminals of
        None \<Rightarrow> Inl (ParseError ''Lexer failed to recognize symbol'' (l_line token) (l_index token + index))
      | Some t \<Rightarrow> Inr \<lparr>l_type = t_type t, l_match = the (t_pattern t str index),
                        l_index = l_index token + index, l_line = l_line token\<rparr>)"
  by (induction terminals) (auto split: option.splits)

lemma eligible_iff:
  "eligible activeTerminals t =
     (case activeTerminals of
        None \<Rightarrow> True
      | Some active \<Rightarrow> (\<exists>v. active (t_type t) = Some v \<and> truthy v) \<or> t_type t = ''whitespace'')"
  by (auto simp: eligible_def split: option.splits)

text \<open>
  Claim C5, as amended. \<^verbatim>\<open>Lexer.next\<close> returns the synthetic \<^verbatim>\<open>$\<close> token when
  \<open>index\<close> is at or past the end of the line. Otherwise it tries the terminals in
  declaration order and returns the token of the first attempted terminal whose pattern
  matches at \<open>index\<close>, where a terminal is attempted iff \<open>activeTerminals\<close> is
  absent, or maps the terminal's type to a truthy value (as every row of an action table
  does), or the type is \<^verbatim>\<open>whitespace\<close>; if no attempted terminal matches, it fails
  with the error "Lexer failed to recognize symbol" carrying the line and the column.
\<close>

theorem Lexer_next_first_eligible:
  "Lexer_next terminals token index activeTerminals =
     (case l_match token of
        [] \<Rightarrow> Inl TypeError
      | str # groups \<Rightarrow>
          if length str \<le> index
          then Inr \<lparr>l_type = ''$'', l_match = [''''],
                    l_index = l_index token + index, l_line = l_line token\<rparr>
          else (case find (\<lambda>t. (case activeTerminals of
                                   None \<Rightarrow> True
                                 | Some active \<Rightarrow>
                                     (\<exists>v. active (t_type t) = Some v \<and> truthy v)
                                     \<or> t_type t = ''whitespace'')
                               \<and> t_pattern t str index \<noteq> None) terminals of
                  None \<Rightarrow> Inl (ParseError ''Lexer failed to recognize symbol''
                                  (l_line token) (l_index token + index))
                | Some t \<Rightarrow> Inr \<lparr>l_type = t_type t, l_match = the (t_pattern t str index),
                                  l_index = l_index token + index, l_line = l_line token\<rparr>))"
  unfolding Lexer_next_def nextLoop_find eligible_iff by (simp split: list.splits)

text \<open>
  Claim C5 as stated fails: the type \<^verbatim>\<open>a\<close> is a key of the active map and its
  pattern matches at the index, but the key's value is \<^verbatim>\<open>false\<close>, so the terminal
  is skipped and \<^verbatim>\<open>next\<close> throws.
\<close>

theorem Lexer_next_falsy_active:
  "''a'' \<in> dom [''a'' \<mapsto> JBool False]
   \<and> literal ''a'' ''a'' 0 = Some [''a'']
   \<and> Lexer_next [\<lparr>t_type = ''a'', t_pattern = literal ''a''\<rparr>] (unknownToken ''a'' 0) 0
        (Some [''a'' \<mapsto> JBool False])
      = Inl (ParseError ''Lexer failed to recognize symbol'' 0 0)"
  by (simp add: Lexer_next_def unknownToken_def eligible_def literal_def)

subsection \<open>Zero-width matches\<close>

lemma lexLine_zero_width:
  assumes run: "lexLine terminals token index out = Some r"
      and nx: "Lexer_next terminals token index None = Inr lexToken"
      and ty: "l_type lexToken \<noteq> ''$''" and m: "l_match lexToken = [] # groups"
  shows False
proof -
  have "index' = index \<Longrightarrow> False"
    if "lexLine terminals token index' out' = Some r" for index' out'
    using that
  proof (induction rule: lexLine_run_induct)
    case (step i out)
    from step(3) nx have nx': "Lexer_next terminals token i None = Inr lexToken" by simp
    from step(1) nx' ty m have "lexLine terminals token (i + length ([]::string)) (out @ [lexToken]) = Some r"
      by (subst (asm) lexLine_step_Some) simp
    from step(2)[OF nx' ty m this] step(3) show False by simp
  qed
  from this[OF run] show False by simp
qed

text \<open>
  Claim C6, as amended. When \<^verbatim>\<open>next\<close> yields a zero-width token at the current
  position (an empty \<^verbatim>\<open>match[0]\<close>, not the end-of-line \<^verbatim>\<open>$\<close>),
  \<^verbatim>\<open>Lexer.lex\<close> accepts the token, does not advance the index, and never returns:
  it neither yields tokens nor fails with the error of an unrecognized symbol.
\<close>

theorem lex_zero_width_never_returns:
  assumes "Lexer_next terminals token index None = Inr lexToken"
      and "l_type lexToken \<noteq> ''$''" and "l_match lexToken = [] # groups"
  shows "lexLine terminals token index output = None
         \<and> (l_type token = ''unknown'' \<and> index = 0 \<longrightarrow> Lexer_lex terminals (token # rest) = None)"
proof -
  have "lexLine terminals token index out = None" for out
    using lexLine_zero_width[OF _ assms] by (cases "lexLine terminals token index out") auto
  then show ?thesis by (auto simp: Lexer_lex_def)
qed

theorem lex_zero_width_never_returns_witness:
  "lexLine [\<lparr>t_type = ''e'', t_pattern = literal ''''\<rparr>] (unknownToken ''b'' 0) 0 [] = None
   \<and> Lexer_lex [\<lparr>t_type = ''e'', t_pattern = literal ''''\<rparr>] [unknownToken ''b'' 0] = None"
  using lex_zero_width_never_returns[of "[\<lparr>t_type = ''e'', t_pattern = literal ''''\<rparr>]"
      "unknownToken ''b'' 0" 0
      "\<lparr>l_type = ''e'', l_match = [''''], l_index = 0, l_line = 0\<rparr>" "[]" "[]" "[]"]
  by (simp add: Lexer_next_def unknownToken_def eligible_def literal_def)

text \<open>
  Claim C6 as stated fails: with the terminal \<^verbatim>\<open>/a*/\<close> on the line \<^verbatim>\<open>b\<close> the
  pattern matches the empty string at index 0, and \<^verbatim>\<open>lex\<close> does not end with an
  error: it does not end at all.
\<close>

theorem lex_zero_width_loops:
  "t_pattern \<lparr>t_type = ''as'', t_pattern = star CHR ''a''\<rparr> ''b'' 0 = Some ['''']
   \<and> Lexer_lex [\<lparr>t_type = ''as'', t_pattern = star CHR ''a''\<rparr>] [unknownToken ''b'' 0] = None"
proof -
  have nx: "Lexer_next [\<lparr>t_type = ''as'', t_pattern = star CHR ''a''\<rparr>] (unknownToken ''b'' 0) 0 None
        = Inr \<lparr>l_type = ''as'', l_match = [''''], l_index = 0, l_line = 0\<rparr>"
    by (simp add: Lexer_next_def unknownToken_def eligible_def star_def)
  have "lexLine [\<lparr>t_type = ''as'', t_pattern = star CHR ''a''\<rparr>] (unknownToken ''b'' 0) 0 [] = None"
    using lexLine_zero_width[OF _ nx]
    by (cases "lexLine [\<lparr>t_type = ''as'', t_pattern = star CHR ''a''\<rparr>] (unknownToken ''b'' 0) 0 []") auto
  then show ?thesis by (simp add: Lexer_lex_def unknownToken_def star_def)
qed

subsection \<open>Lexing a concatenation\<close>

lemma lexLine_output:
  assumes "lexLine terminals token index out = Some r"
  shows "case r of
           Inl e \<Rightarrow> \<forall>out'. lexLine terminals token index out' = Some (Inl e)
         | Inr xs \<Rightarrow> \<exists>ys. xs = out @ ys \<and> (\<forall>out'. lexLine terminals token index out' = Some (Inr (out' @ ys)))"
  using assms
proof (induction rule: lexLine_run_induct)
  case (step i out)
  show ?case
  proof (cases "Lexer_next terminals token i None")
    case (Inl e)
    then show ?thesis using step(1) by (auto simp: lexLine_step_Some)
  next
    case (Inr lt)
    show ?thesis
    proof (cases "l_type lt = ''$''")
      case True
      then show ?thesis using step(1) Inr by (auto simp: lexLine_step_Some)
    next
      case False
      show ?thesis
      proof (cases "l_match lt")
        case Nil
        then show ?thesis using step(1) Inr False by (auto simp: lexLine_step_Some)
      next
        case (Cons m0 groups)
        from step(1) Inr False Cons
        have "lexLine terminals token (i + length m0) (out @ [lt]) = Some r"
          by (subst (asm) lexLine_step_Some) simp
        from step(2)[OF Inr False Cons this] show ?thesis
          using Inr False Cons
          by (cases r) (auto simp: lexLine_step_Some[of terminals token i])
      qed
    qed
  qed
qed

lemma lexLine_from_empty:
  "lexLine terminals token index out =
     (case lexLine terminals token index [] of
        None \<Rightarrow> None
      | Some (Inl e) \<Rightarrow> Some (Inl e)
      | Some (Inr ys) \<Rightarrow> Some (Inr (out @ ys)))"
proof (cases "lexLine terminals token index []")
  case None
  have "lexLine terminals token index out = None"
  proof (cases "lexLine terminals token index out")
    case (Some r)
    from lexLine_output[OF this] None show ?thesis by (cases r) auto
  qed simp
  with None show ?thesis by simp
next
  case (Some r)
  from lexLine_output[OF this] Some show ?thesis by (cases r) auto
qed

text \<open>
  Claim C9, as amended. Let no terminal have the reserved type \<^verbatim>\<open>$\<close>, and let no
  terminal straddle the boundary between \<open>s1\<close> and \<open>s2\<close>: a match attempt on
  \<open>s1 @ s2\<close> before the boundary gives what it gives on \<open>s1\<close> alone and ends at
  or before the boundary, and a match attempt at or after the boundary gives what it
  gives on \<open>s2\<close> alone. Then \<^verbatim>\<open>lex\<close> of the line \<open>s1 @ s2\<close> is \<^verbatim>\<open>lex\<close>
  of \<open>s1\<close> followed by \<^verbatim>\<open>lex\<close> of \<open>s2\<close> taken at column offset
  \<open>length s1\<close> (so the tokens of the second part carry their columns in the whole
  line); an error or a run that never ends in either part is the outcome of the whole.
\<close>

theorem lex_concat:
  assumes "Lexer_new terminals = Inr terminals"
      and "\<forall>t \<in> set terminals. \<forall>k<length s1. t_pattern t (s1 @ s2) k = t_pattern t s1 k"
      and "\<forall>t \<in> set terminals. \<forall>k. t_pattern t (s1 @ s2) (length s1 + k) = t_pattern t s2 k"
      and "\<forall>t \<in> set terminals. \<forall>k<length s1. \<forall>m0 groups.
             t_pattern t (s1 @ s2) k = Some (m0 # groups) \<longrightarrow> k + length m0 \<le> length s1"
  shows "Lexer_lex terminals [lineToken (s1 @ s2) c line] =
           (case Lexer_lex terminals [lineToken s1 c line] of
              None \<Rightarrow> None
            | Some (Inl e) \<Rightarrow> Some (Inl e)
            | Some (Inr xs) \<Rightarrow>
                (case Lexer_lex terminals [lineToken s2 (c + length s1) line] of
                   None \<Rightarrow> None
                 | Some (Inl e) \<Rightarrow> Some (Inl e)
                 | Some (Inr ys) \<Rightarrow> Some (Inr (xs @ ys))))"
proof -
  from assms(1) have nd: "\<forall>t \<in> set terminals. t_type t \<noteq> ''$''"
    by (auto simp: Lexer_new_def split: if_splits)
  have lex1: "Lexer_lex terminals [lineToken s c' line]
        = lexLine terminals (lineToken s c' line) 0 []" for s c'
    by (simp add: Lexer_lex_def lineToken_def split: option.splits sum.splits)
  show ?thesis
  proof (cases "lexLine terminals (lineToken s1 c line) 0 []")
    case None
    then show ?thesis
      unfolding lex1 lexLine_concat[OF nd assms(2,3,4), of c line "[]"] by simp
  next
    case (Some r1)
    show ?thesis
    proof (cases r1)
      case (Inl e)
      with Some show ?thesis
        unfolding lex1 lexLine_concat[OF nd assms(2,3,4), of c line "[]"] by simp
    next
      case (Inr xs)
      with Some show ?thesis
        unfolding lex1 lexLine_concat[OF nd assms(2,3,4), of c line "[]"]
        using lexLine_from_empty[of terminals "lineToken s2 (c + length s1) line" 0 xs]
        by (simp split: option.splits sum.splits)
    qed
  qed
qed

lemma literal_shift: "literal el (s1 @ s2) (length s1 + k) = literal el s2 k"
  by (simp add: literal_def)

theorem lex_concat_witness:
  "Lexer_lex [\<lparr>t_type = ''a'', t_pattern = literal ''a''\<rparr>, \<lparr>t_type = ''b'', t_pattern = literal ''b''\<rparr>]
      [lineToken (''a'' @ ''b'') 0 0]
   = Some (Inr [\<lparr>l_type = ''a'', l_match = [''a''], l_index = 0, l_line = 0\<rparr>,
                \<lparr>l_type = ''b'', l_match = [''b''], l_index = 1, l_line = 0\<rparr>])"
proof -
  let ?ts = "[\<lparr>t_type = ''a'', t_pattern = literal ''a''\<rparr>, \<lparr>t_type = ''b'', t_pattern = literal ''b''\<rparr>]"
  have 1: "Lexer_new ?ts = Inr ?ts" by (simp add: Lexer_new_def)
  have 2: "\<forall>t \<in> set ?ts. \<forall>k<length ''a''. t_pattern t (''a'' @ ''b'') k = t_pattern t ''a'' k"
    by (simp add: literal_def)
  have 3: "\<forall>t \<in> set ?ts. \<forall>k. t_pattern t (''a'' @ ''b'') (length ''a'' + k) = t_pattern t ''b'' k"
    using literal_shift[of _ "''a''" "''b''"] by simp
  have 4: "\<forall>t \<in> set ?ts. \<forall>k<length ''a''. \<forall>m0 groups.
             t_pattern t (''a'' @ ''b'') k = Some (m0 # groups) \<longrightarrow> k + length m0 \<le> length ''a''"
    by (simp add: literal_def)
  have a: "Lexer_lex ?ts [lineToken ''a'' 0 0] = Some (Inr [\<lparr>l_type = ''a'', l_match = [''a''], l_index = 0, l_line = 0\<rparr>])"
    by code_simp
  have b: "Lexer_lex ?ts [lineToken ''b'' (0 + length ''a'') 0] = Some (Inr [\<lparr>l_type = ''b'', l_match = [''b''], l_index = 1, l_line = 0\<rparr>])"
    by code_simp
  show ?thesis
    using lex_concat[OF 1 2 3 4, of 0 0] unfolding a b by simp
qed

text \<open>
  Claim C9 as stated fails: the second \<^verbatim>\<open>a\<close> of the line \<^verbatim>\<open>aa\<close> is a token
  at column 1, while \<^verbatim>\<open>lex\<close> of the line \<^verbatim>\<open>a\<close> alone puts it at column 0, so
  the token list of the concatenation is not the concatenation of the token lists.
\<close>

theorem lex_concat_index_differs:
  "Lexer_lex [\<lparr>t_type = ''a'', t_pattern = literal ''a''\<rparr>] [unknownToken (''a'' @ ''a'') 0]
     = Some (Inr [\<lparr>l_type = ''a'', l_match = [''a''], l_index = 0, l_line = 0\<rparr>,
                  \<lparr>l_type = ''a'', l_match = [''a''], l_index = 1, l_line = 0\<rparr>])
   \<and> Lexer_lex [\<lparr>t_type = ''a'', t_pattern = literal ''a''\<rparr>] [unknownToken ''a'' 0]
     = Some (Inr [\<lparr>l_type = ''a'', l_match = [''a''], l_index = 0, l_line = 0\<rparr>])
   \<and> [\<lparr>l_type = ''a'', l_match = [''a''], l_index = 0, l_line = 0\<rparr>,
       \<lparr>l_type = ''a'', l_match = [''a''], l_index = 1, l_line = (0::nat)\<rparr>]
     \<noteq> [\<lparr>l_type = ''a'', l_match = [''a''], l_index = 0, l_line = 0\<rparr>]
       @ [\<lparr>l_type = ''a'', l_match = [''a''], l_index = 0, l_line = 0\<rparr>]"
  by code_simp


subsection \<open>The offside rule\<close>

lemma dedentLoop_eq:
  "dedentLoop c i level out =
     (rev (dropWhile (\<lambda>t. c < t) (rev level)),
      out @ map (\<lambda>t. markToken ''dedent'' c i) (takeWhile (\<lambda>t. c < t) (rev level)))"
proof (induction c i level out rule: dedentLoop.induct)
  case (1 c i level out)
  show ?case
  proof (cases level rule: rev_cases)
    case Nil
    then show ?thesis by (subst dedentLoop.simps) (simp add: top_def)
  next
    case (snoc ys t)
    show ?thesis
    proof (cases "c < t")
      case True
      with 1[of t] snoc show ?thesis by (subst dedentLoop.simps) (simp add: top_def)
    next
      case False
      with snoc show ?thesis by (subst dedentLoop.simps) (simp add: top_def)
    qed
  qed
qed

lemma offsideLoop_spec:
  "offsideLoop lines i level out =
     (case offsideSpec (rev level) i lines of
        Inl e \<Rightarrow> Inl e
      | Inr (tokens, stack) \<Rightarrow> Inr (rev stack, out @ tokens))"
proof (induction lines arbitrary: i level out)
  case Nil
  then show ?case by simp
next
  case (Cons str rest)
  show ?case
  proof (cases "firstNonSpace str")
    case None
    then show ?thesis using Cons[of "Suc i" level "out @ [unknownToken str i]"]
      by (simp add: emit_def split: sum.splits prod.splits)
  next
    case (Some c)
    show ?thesis
    proof (cases "level \<noteq> [] \<and> c > last level")
      case True
      then show ?thesis
        using Some Cons[of "Suc i" "level @ [c]" "out @ [markToken ''indent'' c i, unknownToken str i]"]
        by (simp add: emit_def top_def hd_rev split: sum.splits prod.splits)
    next
      case False
      let ?stack' = "dropWhile (\<lambda>t. c < t) (rev level)"
      let ?out' = "out @ map (\<lambda>t. markToken ''dedent'' c i) (takeWhile (\<lambda>t. c < t) (rev level))"
      have t: "(top (rev ?stack') \<noteq> Some c) = (?stack' = [] \<or> hd ?stack' \<noteq> c)"
        by (auto simp add: top_def last_rev)
      from False have nt: "(case top level of None \<Rightarrow> False | Some t \<Rightarrow> c > t) = False"
        by (auto simp: top_def)
      from False have ns: "(level \<noteq> [] \<and> c > hd (rev level)) = False"
        by (auto simp: hd_rev)
      show ?thesis
        using Cons[of "Suc i" "rev ?stack'" "?out' @ [unknownToken str i]"]
        by (simp add: Some nt ns t dedentLoop_eq emit_def Let_def split: sum.splits prod.splits)
    qed
  qed
qed


lemma levels_ok_dropWhile:
  "levels_ok stack \<Longrightarrow> levels_ok (dropWhile (\<lambda>t. c < t) stack)"
proof (induction stack)
  case Nil
  then show ?case by simp
next
  case (Cons a stack)
  then show ?case by (cases stack) (auto simp: levels_ok_def)
qed

lemma offsideSpec_levels_ok:
  "offsideSpec stack i lines = Inr (tokens, stack') \<Longrightarrow> levels_ok stack \<Longrightarrow> levels_ok stack'"
proof (induction lines arbitrary: stack i tokens)
  case Nil
  then show ?case by simp
next
  case (Cons str rest)
  show ?case
  proof (cases "firstNonSpace str")
    case None
    with Cons.prems Cons.IH[of stack "Suc i"] show ?thesis
      by (auto simp: emit_def split: sum.splits prod.splits)
  next
    case (Some c)
    show ?thesis
    proof (cases "stack \<noteq> [] \<and> c > hd stack")
      case True
      then have "levels_ok (c # stack)" using Cons.prems(2)
        by (cases stack) (auto simp: levels_ok_def)
      with Cons.prems Cons.IH[of "c # stack" "Suc i"] Some True show ?thesis
        by (auto simp: emit_def split: sum.splits prod.splits)
    next
      case False
      with Cons.prems Cons.IH[of "dropWhile (\<lambda>t. c < t) stack" "Suc i"] Some
        levels_ok_dropWhile[OF Cons.prems(2), of c]
      show ?thesis
        by (auto simp: emit_def Let_def split: sum.splits prod.splits if_splits)
    qed
  qed
qed

lemma closeLevels_eq:
  "levels_ok (rev level) \<Longrightarrow>
   closeLevels index line level out =
     out @ map (\<lambda>t. markToken ''dedent'' index line) (filter (\<lambda>t. t \<noteq> 0) (rev level))"
proof (induction index line level out rule: closeLevels.induct)
  case (1 index line level out)
  show ?case
  proof (cases level rule: rev_cases)
    case Nil
    then show ?thesis by (subst closeLevels.simps) (simp add: top_def)
  next
    case (snoc ys t)
    show ?thesis
    proof (cases "0 < t")
      case True
      with 1(2) snoc have "levels_ok (rev ys)"
        by (cases ys rule: rev_cases) (auto simp: levels_ok_def)
      with 1(1)[of t] True snoc show ?thesis
        by (subst closeLevels.simps) (simp add: top_def)
    next
      case False
      with 1(2) snoc have "\<forall>x \<in> set ys. x = 0" 
        by (auto simp: levels_ok_def sorted_wrt_append)
      then have "filter (\<lambda>t. t \<noteq> 0) (rev ys) = []" by (simp add: filter_empty_conv)
      with False snoc show ?thesis by (subst closeLevels.simps) (simp add: top_def)
    qed
  qed
qed

lemma splitOffside_spec:
  "Lexer_splitOffside input comment =
     (let lines = keepLines comment (splitLines input [])
      in if lines = [] then Inl TypeError else splitOffsideSpec lines)"
proof -
  let ?lines = "keepLines comment (splitLines input [])"
  have ok: "levels_ok [0]" by (simp add: levels_ok_def)
  show ?thesis
  proof (cases "offsideSpec [0] 0 ?lines")
    case (Inl e)
    then show ?thesis
      using offsideLoop_spec[of ?lines 0 "[0]" "[]"]
      by (cases "?lines = []") (auto simp add: Lexer_splitOffside_def splitOffsideSpec_def Let_def top_def)
  next
    case (Inr p)
    obtain tokens stack where p: "p = (tokens, stack)" by (cases p)
    from offsideSpec_levels_ok[OF Inr[unfolded p] ok] have "levels_ok (rev (rev stack))" by simp
    from closeLevels_eq[OF this] Inr p
    show ?thesis
      using offsideLoop_spec[of ?lines 0 "[0]" "[]"]
      by (simp add: Lexer_splitOffside_def splitOffsideSpec_def Let_def top_def)
  qed
qed

text \<open>
  Claim C7 as stated fails on an input of which the comment filter drops every line,
  here the one line \<^verbatim>\<open># note\<close> with the comment pattern \<^verbatim>\<open>/^#/\<close>: no line is
  left, \<^verbatim>\<open>lines[lines.length - 1].length\<close> reads a property of \<^verbatim>\<open>undefined\<close>,
  and \<^verbatim>\<open>splitOffside\<close> throws a \<^verbatim>\<open>TypeError\<close> where the claim has it emit
  \<^verbatim>\<open>$\<close>.
\<close>

theorem splitOffside_all_comments:
  "keepLines (Some hashComment) (splitLines ''# note'' []) = []
   \<and> Lexer_splitOffside ''# note'' (Some hashComment) = Inl TypeError"
  by code_simp

text \<open>
  Claim C7, amended. When the comment filter drops every line, \<^verbatim>\<open>splitOffside\<close>
  throws a \<^verbatim>\<open>TypeError\<close>. On every other input it computes the offside rule as the
  specification words it: a stack of columns, initially \<open>[0]\<close>; per line with a first
  column \<open>c\<close>, an \<^verbatim>\<open>indent\<close> and a push when \<open>c\<close> exceeds the top, otherwise
  one \<^verbatim>\<open>dedent\<close> per pop while \<open>c\<close> is below the top and the indentation
  error if \<open>c\<close> then differs from the top; then the line's \<^verbatim>\<open>unknown\<close> token;
  at the end one \<^verbatim>\<open>dedent\<close> per level that is not zero, then \<^verbatim>\<open>$\<close>. On the
  four lines \<^verbatim>\<open>a\<close>, \<^verbatim>\<open>  b\<close>, \<^verbatim>\<open>  c\<close>, \<^verbatim>\<open>d\<close> it produces exactly
  unknown(a), indent, unknown(  b), unknown(  c), dedent, unknown(d), \<^verbatim>\<open>$\<close>.
\<close>

theorem splitOffside_refines:
  "Lexer_splitOffside input comment =
     (let lines = keepLines comment (splitLines input [])
      in if lines = [] then Inl TypeError else splitOffsideSpec lines)
   \<and> Lexer_splitOffside (''a'' @ [CHR 0x0A] @ ''  b'' @ [CHR 0x0A] @ ''  c'' @ [CHR 0x0A] @ ''d'') None =
       Inr [unknownToken ''a'' 0, markToken ''indent'' 2 1, unknownToken ''  b'' 1,
            unknownToken ''  c'' 2, markToken ''dedent'' 0 3, unknownToken ''d'' 3,
            markToken ''$'' 1 3]"
proof
  show "Lexer_splitOffside input comment =
     (let lines = keepLines comment (splitLines input [])
      in if lines = [] then Inl TypeError else splitOffsideSpec lines)"
    by (rule splitOffside_spec)
  show "Lexer_splitOffside (''a'' @ [CHR 0x0A] @ ''  b'' @ [CHR 0x0A] @ ''  c'' @ [CHR 0x0A] @ ''d'') None =
       Inr [unknownToken ''a'' 0, markToken ''indent'' 2 1, unknownToken ''  b'' 1,
            unknownToken ''  c'' 2, markToken ''dedent'' 0 3, unknownToken ''d'' 3,
            markToken ''$'' 1 3]"
    by code_simp
qed

section \<open>Properties of the item sets\<close>



























section \<open>Properties of the action table\<close>












section \<open>Properties of the parse loop\<close>












lemma optTable_built: "Parser_buildTable optRules ''S'' = Some (Inr optTable)"
  by code_simp




section \<open>The scenarios\<close>

lemma listTable_built: "Parser_buildTable listRules ''list'' = Some (Inr listTable)"
  by code_simp

lemma sTable_built: "Parser_buildTable sRules ''S'' = Some (Inr sTable)"
  by code_simp

lemma checkRules_list: "checkRules listRules = None"
  by code_simp

lemma checkRules_s: "checkRules sRules = None"
  by code_simp

text \<open>
  Claim C2, as amended. With the grammar \<^verbatim>\<open>list \<rightarrow> "[" item* "]"\<close>,
  \<^verbatim>\<open>item \<rightarrow> "a"\<close> (the brackets and \<^verbatim>\<open>a\<close> promoted to literal terminals),
  \<^verbatim>\<open>parse\<close> on \<^verbatim>\<open>[]\<close> returns a \<^verbatim>\<open>list\<close> node with two children, the two
  brackets, and on \<^verbatim>\<open>[aaa]\<close> a \<^verbatim>\<open>list\<close> node with five children: the opening
  bracket, three \<^verbatim>\<open>item\<close> subtrees, the closing bracket, in source order.
\<close>

theorem list_star_children:
  "Parser_new listRules ''list'' None Map.empty = Some (Inr listTable, Map.empty)
   \<and> Lexer_split ''[]'' None = Inr [unknownToken ''[]'' 0, markToken ''$'' 2 0]
   \<and> Parser_parse listTable (Parser_terminals listRules []) [unknownToken ''[]'' 0, markToken ''$'' 2 0]
      = Some (Inr (Node ''list''
          [Leaf \<lparr>l_type = ''['', l_match = [''[''], l_index = 0, l_line = 0\<rparr>,
           Leaf \<lparr>l_type = '']'', l_match = ['']''], l_index = 1, l_line = 0\<rparr>]))
   \<and> Lexer_split ''[aaa]'' None = Inr [unknownToken ''[aaa]'' 0, markToken ''$'' 5 0]
   \<and> Parser_parse listTable (Parser_terminals listRules []) [unknownToken ''[aaa]'' 0, markToken ''$'' 5 0]
      = Some (Inr (Node ''list''
          [Leaf \<lparr>l_type = ''['', l_match = [''[''], l_index = 0, l_line = 0\<rparr>,
           Node ''item'' [Leaf \<lparr>l_type = ''a'', l_match = [''a''], l_index = 1, l_line = 0\<rparr>],
           Node ''item'' [Leaf \<lparr>l_type = ''a'', l_match = [''a''], l_index = 2, l_line = 0\<rparr>],
           Node ''item'' [Leaf \<lparr>l_type = ''a'', l_match = [''a''], l_index = 3, l_line = 0\<rparr>],
           Leaf \<lparr>l_type = '']'', l_match = ['']''], l_index = 4, l_line = 0\<rparr>]))"
proof (intro conjI)
  show "Parser_new listRules ''list'' None Map.empty = Some (Inr listTable, Map.empty)"
    by (simp add: Parser_new_def checkRules_list listTable_built)
qed code_simp+

text \<open>
  Claim C2 as stated fails on \<^verbatim>\<open>[]\<close>: the node returned has two children, not
  three.
\<close>

theorem list_star_empty_two_children:
  "Parser_parse listTable (Parser_terminals listRules []) [unknownToken ''[]'' 0, markToken ''$'' 2 0]
      = Some (Inr (Node ''list''
          [Leaf \<lparr>l_type = ''['', l_match = [''[''], l_index = 0, l_line = 0\<rparr>,
           Leaf \<lparr>l_type = '']'', l_match = ['']''], l_index = 1, l_line = 0\<rparr>]))
   \<and> length [Leaf \<lparr>l_type = ''['', l_match = [''[''], l_index = 0, l_line = 0\<rparr>,
              Leaf \<lparr>l_type = '']'', l_match = ['']''], l_index = 1, l_line = 0\<rparr>] \<noteq> 3"
  by code_simp

text \<open>
  Claim C3 fails on the code. For the grammar \<^verbatim>\<open>S \<rightarrow> "a" B "c" | "a" B "d"\<close>,
  \<^verbatim>\<open>B \<rightarrow> "b"\<close> built with the version tag \<^verbatim>\<open>1\<close>, the first construction builds
  the table and stores it, the second one loads the stored table; on the input
  \<^verbatim>\<open>abc\<close> the built table parses to a tree and the loaded one throws. The hole of the
  \<^verbatim>\<open>cameFrom\<close> array comes back from the file as \<^verbatim>\<open>null\<close>, which the test
  \<^verbatim>\<open>rule !== undefined\<close> lets through, so the item \<^verbatim>\<open>B \<rightarrow> \<bullet> "b"\<close> starts with
  the count 1 and the reduction of \<^verbatim>\<open>B\<close> removes two symbols instead of one.
\<close>

theorem persisted_table_parses_differently:
  "Parser_new sRules ''S'' (Some ''1'') Map.empty
     = Some (Inr sTable, [fileName ''1'' \<mapsto> jsonTable sTable])
   \<and> Parser_new sRules ''S'' (Some ''1'') [fileName ''1'' \<mapsto> jsonTable sTable]
     = Some (Inr (jsonTable sTable), [fileName ''1'' \<mapsto> jsonTable sTable])
   \<and> Lexer_split ''abc'' None = Inr [unknownToken ''abc'' 0, markToken ''$'' 3 0]
   \<and> Parser_parse sTable (Parser_terminals sRules []) [unknownToken ''abc'' 0, markToken ''$'' 3 0]
     = Some (Inr (Node ''S''
         [Leaf \<lparr>l_type = ''a'', l_match = [''a''], l_index = 0, l_line = 0\<rparr>,
          Node ''B'' [Leaf \<lparr>l_type = ''b'', l_match = [''b''], l_index = 1, l_line = 0\<rparr>],
          Leaf \<lparr>l_type = ''c'', l_match = [''c''], l_index = 2, l_line = 0\<rparr>]))
   \<and> Parser_parse (jsonTable sTable) (Parser_terminals sRules [])
        [unknownToken ''abc'' 0, markToken ''$'' 3 0]
     = Some (Inl TypeError)"
proof (intro conjI)
  show "Parser_new sRules ''S'' (Some ''1'') Map.empty
     = Some (Inr sTable, [fileName ''1'' \<mapsto> jsonTable sTable])"
    by (simp add: Parser_new_def checkRules_s sTable_built)
  show "Parser_new sRules ''S'' (Some ''1'') [fileName ''1'' \<mapsto> jsonTable sTable]
     = Some (Inr (jsonTable sTable), [fileName ''1'' \<mapsto> jsonTable sTable])"
    by (simp add: Parser_new_def checkRules_s)
qed code_simp+

section \<open>The width of a reduction\<close>





lemma pathOK_cong:
  "readStack s0 = readStack s \<Longrightarrow> stateStack s0 = stateStack s \<Longrightarrow> pathOK states s0 = pathOK states s"
  by (simp add: pathOK_def)









lemma spliceLast_length:
  "0 < k \<Longrightarrow> k \<le> length xs \<Longrightarrow> length (snd (spliceLast (Some k) xs)) = k"
  by (simp add: spliceLast_def)


section \<open>Table construction: the fixpoint loops return\<close>









































lemma actionType_kind: "actionType a \<in> {''shift'', ''reduce'', ''accept''}"
  by (cases a) simp_all























section \<open>The automaton: every item has its origin\<close>
























section \<open>Table construction: one action for a state and a symbol\<close>

text \<open>
  With a name that every object inherits, here the terminal \<^verbatim>\<open>constructor\<close> in the
  rules \<^verbatim>\<open>{S: [["constructor"]]}\<close> with the start symbol \<^verbatim>\<open>S\<close>, the table
  \<^verbatim>\<open>first\<close> keeps the inherited function in place of a set and spreading it throws.
\<close>

lemma buildTable_inherited_name:
  "Parser_buildTable [(''S'', [[''constructor'']])] ''S'' = Some (Inl TypeError)"
  by code_simp



section \<open>A reduce pops the length of its rule and finds its goto\<close>




section \<open>Properties of the visitor\<close>

text \<open>
  Claim C10. When the visitor has no method for a type, \<^verbatim>\<open>visit\<close> of a leaf of
  that type throws "Each terminal should have a corresponding visit method" and returns
  no value, whatever depth it may use; on an internal node of that type it is the
  fallback \<^verbatim>\<open>visitChildren\<close>, which applies to internal nodes only.
\<close>

theorem visit_leaf_without_method:
  assumes "methods ty = None"
  shows "(l_type l = ty \<longrightarrow>
           Visitor_visit (Suc depth) methods state (Leaf l)
             = Some (Inl (Error ''Each terminal should have a corresponding visit method'')))
         \<and> Visitor_visit (Suc depth) methods state (Node ty children)
             = Visitor_visitChildren depth methods state children"
  using assms by (simp add: Visitor_visitChildren_def)

theorem visit_leaf_without_method_witness:
  "Visitor_visit (Suc 0) [''number'' \<mapsto> numberMethod] ()
      (Leaf \<lparr>l_type = ''add'', l_match = [''+''], l_index = 0, l_line = 0\<rparr>)
     = Some (Inl (Error ''Each terminal should have a corresponding visit method''))
   \<and> Visitor_visit (Suc (Suc 0)) [''number'' \<mapsto> numberMethod] ()
      (Node ''add'' [Leaf \<lparr>l_type = ''number'', l_match = [''3''], l_index = 0, l_line = 0\<rparr>])
     = Some (Inr (1, ()))"
  using visit_leaf_without_method[of "[''number'' \<mapsto> numberMethod]" "''add''"
      "\<lparr>l_type = ''add'', l_match = [''+''], l_index = 0, l_line = 0\<rparr>" 0 "()" ]
        visit_leaf_without_method[of "[''number'' \<mapsto> numberMethod]" "''add''" _ "Suc 0" "()"
           "[Leaf \<lparr>l_type = ''number'', l_match = [''3''], l_index = 0, l_line = 0\<rparr>]"]
  by (simp add: Visitor_visitChildren_def numberMethod_def)

end
